theory Spec2Isabelle
  imports Complex_Main "HOL-Library.AList" "HOL-Library.Sublist"
begin

section \<open>Values, exceptions and log records\<close>

text \<open>
  The script \<^verbatim>\<open>examples/describe_cg.py\<close> is glue code around the forgi library.
  Python exceptions are values: every call that can raise returns \<open>exn + 'a\<close>, with
  \<open>Inl\<close> the exception.  Exception classes are a flat datatype; an \<^verbatim>\<open>except\<close>
  clause is a test on the class.
\<close>

datatype exc_type =
  ValueError | NameError | TypeError | IndexError | KeyError | AttributeError
  | RnaMissing3dError | RuntimeError | OtherException string

datatype exn = Exc exc_type string

fun type_name :: "exc_type \<Rightarrow> string" where
  "type_name ValueError = ''ValueError''"
| "type_name NameError = ''NameError''"
| "type_name TypeError = ''TypeError''"
| "type_name IndexError = ''IndexError''"
| "type_name KeyError = ''KeyError''"
| "type_name AttributeError = ''AttributeError''"
| "type_name RnaMissing3dError = ''RnaMissing3dError''"
| "type_name RuntimeError = ''RuntimeError''"
| "type_name (OtherException n) = n"

text \<open>Sequencing of calls that may raise.\<close>

definition and_then :: "exn + 'a \<Rightarrow> ('a \<Rightarrow> exn + 'b) \<Rightarrow> exn + 'b" where
  "and_then m f = (case m of Inl e \<Rightarrow> Inl e | Inr x \<Rightarrow> f x)"

text \<open>The scalar values a feature row holds; \<open>VNaN\<close> is \<^verbatim>\<open>float("nan")\<close>.\<close>

datatype val = VInt int | VFloat real | VNaN | VStr string | VBool bool

type_synonym vec = "real list"

type_synonym row = "(string \<times> val) list"

text \<open>
  The accumulating table is a \<^verbatim>\<open>defaultdict(list)\<close>: column name to the list of its
  cells, in insertion order.  A pandas data frame built from it has the columns that
  \<^verbatim>\<open>set_index\<close> moved into the index (beside the default row counter) and the rest.
\<close>

type_synonym table = "(string \<times> val list) list"

record data_frame =
  index_levels :: table
  columns :: table

datatype level = INFO | WARNING | ERROR

text \<open>A call of \<^verbatim>\<open>log.info\<close>, \<^verbatim>\<open>log.warning\<close> or \<^verbatim>\<open>log.error\<close>: level, format string, arguments.\<close>

datatype log_record = LogRecord level string "val list"

type_synonym log = "log_record list"

section \<open>The external collaborators\<close>

text \<open>
  The coarse-grained structure is an opaque object of the forgi library.  The record
  holds what the script reads from it; methods that can raise return a sum.
  \<open>defines_dict\<close> lists the keys of \<^verbatim>\<open>cg.defines\<close> in iteration order and
  \<open>get_direction\<close> is \<^verbatim>\<open>cg.coords.get_direction\<close>.  A multiloop is a sequence of
  element names; its description is a sequence of strings, which line 52 indexes and
  lines 125 to 127 search.  Messages of exceptions are abridged.
\<close>

record cg =
  name :: string
  seq_length :: int
  defines_dict :: "string list"
  find_mlonly_multiloops :: "exn + string list list"
  describe_multiloop :: "string list \<Rightarrow> exn + string list"
  radius_of_gyration :: "string \<Rightarrow> exn + val"
  get_ordered_stem_poss :: "exn + vec list"
  get_ordered_virtual_residue_poss :: "exn + vec list"
  get_virtual_residue :: "int \<Rightarrow> bool \<Rightarrow> exn + vec"
  get_direction :: "string \<Rightarrow> exn + vec"
  get_length :: "string \<Rightarrow> exn + val"
  get_angle_type :: "string \<Rightarrow> bool \<Rightarrow> exn + val"
  connections :: "string \<Rightarrow> exn + string list"

text \<open>
  The library functions the script calls (\<^verbatim>\<open>ftuv\<close>, \<^verbatim>\<open>ftmd\<close>, \<^verbatim>\<open>ftug\<close>), the
  builtin \<^verbatim>\<open>int\<close> on strings, and the text pandas renders a data frame to, as CSV
  and for \<^verbatim>\<open>print\<close>.
\<close>

record externals =
  vec_distance :: "vec \<Rightarrow> vec \<Rightarrow> exn + val"
  vec_angle :: "vec \<Rightarrow> vec \<Rightarrow> exn + val"
  anisotropy :: "vec list \<Rightarrow> exn + val"
  asphericity :: "vec list \<Rightarrow> exn + val"
  junction_virtual_atom_distance :: "cg \<Rightarrow> string \<Rightarrow> exn + val"
  py_int :: "string \<Rightarrow> exn + int"
  to_csv_text :: "data_frame \<Rightarrow> string"
  df_repr :: "data_frame \<Rightarrow> string"

section \<open>Small pieces of Python\<close>

text \<open>\<^verbatim>\<open>s in d\<close> for two strings: \<open>s\<close> occurs in \<open>d\<close> as a contiguous run.\<close>

fun str_in :: "string \<Rightarrow> string \<Rightarrow> bool" where
  "str_in s [] = (s = [])"
| "str_in s (c # cs) = (prefix s (c # cs) \<or> str_in s cs)"

text \<open>\<^verbatim>\<open>xs[-1]\<close>: the last item, \<^verbatim>\<open>IndexError\<close> on an empty list.\<close>

definition getitem_last :: "'a list \<Rightarrow> exn + 'a" where
  "getitem_last xs =
     (if xs = [] then Inl (Exc IndexError ''list index out of range'') else Inr (last xs))"

text \<open>
  The suffix of an ordinal in a log message:
  \<^verbatim>\<open>{1:"st", 2:"nd", 3:"rd"}.get(file_num%10*(file_num%100 not in [11,12,13]), "th")\<close>.
\<close>

definition ordinal_suffix :: "int \<Rightarrow> string" where
  "ordinal_suffix file_num =
     (let k = file_num mod 10 * (if file_num mod 100 \<in> set [11, 12, 13] then 0 else 1)
      in if k = 1 then ''st'' else if k = 2 then ''nd'' else if k = 3 then ''rd'' else ''th'')"

text \<open>\<^verbatim>\<open>s.split(sep)\<close> for a separator of one character.\<close>

fun split_on :: "char \<Rightarrow> string \<Rightarrow> string list" where
  "split_on sep [] = [[]]"
| "split_on sep (c # cs) =
     (if c = sep then [] # split_on sep cs
      else (case split_on sep cs of
              [] \<Rightarrow> [[c]]
            | w # ws \<Rightarrow> (c # w) # ws))"

text \<open>\<^verbatim>\<open>abs\<close> on a scalar.\<close>

fun py_abs :: "val \<Rightarrow> exn + val" where
  "py_abs (VInt i) = Inr (VInt \<bar>i\<bar>)"
| "py_abs (VFloat r) = Inr (VFloat \<bar>r\<bar>)"
| "py_abs VNaN = Inr VNaN"
| "py_abs (VBool b) = Inr (VInt (if b then 1 else 0))"
| "py_abs (VStr s) = Inl (Exc TypeError ''bad operand type for abs()'')"

text \<open>
  \<^verbatim>\<open>data[k]\<close> on a \<^verbatim>\<open>defaultdict(list)\<close> read for its value, and
  \<^verbatim>\<open>data[k].append(v)\<close>.
\<close>

definition column :: "string \<Rightarrow> table \<Rightarrow> val list" where
  "column k data = (case map_of data k of None \<Rightarrow> [] | Some v \<Rightarrow> v)"

definition append_col :: "string \<Rightarrow> val \<Rightarrow> table \<Rightarrow> table" where
  "append_col k v data = AList.update k (column k data @ [v]) data"

text \<open>
  A run of appends, one per pair and in order: \<^verbatim>\<open>for k,v in d.items(): data[k].append(v)\<close>.
\<close>

fun append_items :: "row \<Rightarrow> table \<Rightarrow> table" where
  "append_items [] data = data"
| "append_items ((k, v) # kvs) data = append_items kvs (append_col k v data)"

section \<open>The whole-structure extractor \<^verbatim>\<open>describe_rna\<close>\<close>

subsection \<open>Lines 42 to 45: element counts\<close>

text \<open>
  \<^verbatim>\<open>len([x for x in cg.defines if x[0] == letter])\<close>; \<^verbatim>\<open>x[0]\<close> raises on an empty
  name.
\<close>

fun count_kind :: "char \<Rightarrow> string list \<Rightarrow> exn + nat" where
  "count_kind letter [] = Inr 0"
| "count_kind letter (x # xs) =
     (case x of
        [] \<Rightarrow> Inl (Exc IndexError ''string index out of range'')
      | c # _ \<Rightarrow>
          (case count_kind letter xs of
             Inl e \<Rightarrow> Inl e
           | Inr n \<Rightarrow> Inr (if c = letter then Suc n else n)))"

fun count_kinds :: "string \<Rightarrow> string list \<Rightarrow> row \<Rightarrow> exn + row" where
  "count_kinds [] ds data = Inr data"
| "count_kinds (letter # letters) ds data =
     (case count_kind letter ds of
        Inl e \<Rightarrow> Inl e
      | Inr n \<Rightarrow>
          count_kinds letters ds (AList.update (''num_'' @ [letter]) (VInt (int n)) data))"

definition element_counts :: "cg \<Rightarrow> exn + row" where
  "element_counts c =
     count_kinds ''smifth'' (defines_dict c)
       (AList.update ''num_cg_elems'' (VInt (int (length (defines_dict c))))
         (AList.update ''nt_length'' (VInt (seq_length c)) []))"

subsection \<open>Lines 46 to 65: multiloop statistics\<close>

text \<open>
  The loop over the multiloops.  Its state is the variable \<^verbatim>\<open>descriptors\<close>, assigned
  anew in every iteration, and the two junction counters.
\<close>

fun multiloop_loop ::
  "cg \<Rightarrow> string list list \<Rightarrow> string list \<times> int \<times> int \<Rightarrow> exn + (string list \<times> int \<times> int)"
where
  "multiloop_loop c [] st = Inr st"
| "multiloop_loop c (ml # mls) (descriptors, junct3, junct4) =
     (case describe_multiloop c ml of
        Inl e \<Rightarrow> Inl e
      | Inr ds \<Rightarrow>
          (case getitem_last ds of
             Inl e \<Rightarrow> Inl e
           | Inr d \<Rightarrow>
               if str_in ''regular_multiloop'' d then
                 (if length ml = 3 then multiloop_loop c mls (ds, junct3 + 1, junct4)
                  else if length ml = 4 then multiloop_loop c mls (ds, junct3, junct4 + 1)
                  else multiloop_loop c mls (ds, junct3, junct4))
               else multiloop_loop c mls (ds, junct3, junct4)))"

definition count_in :: "string \<Rightarrow> string list \<Rightarrow> val" where
  "count_in s descriptors = VInt (int (length (filter (str_in s) descriptors)))"

definition multiloop_stats :: "cg \<Rightarrow> string list list \<Rightarrow> row \<Rightarrow> exn + row" where
  "multiloop_stats c multiloops data =
     (case multiloop_loop c multiloops ([], 0, 0) of
        Inl e \<Rightarrow> Inl e
      | Inr (descriptors, junct3, junct4) \<Rightarrow>
          Inr (AList.update ''total_mls'' (VInt (int (length multiloops)))
              (AList.update ''regular_mls'' (count_in ''regular_multiloop'' descriptors)
              (AList.update ''pseudoknots'' (count_in ''pseudoknot'' descriptors)
              (AList.update ''open_mls'' (count_in ''open'' descriptors)
              (AList.update ''4-way-junctions'' (VInt junct4)
              (AList.update ''3-way-junctions'' (VInt junct3) data)))))))"

subsection \<open>Lines 66 to 69: the longest multiloop\<close>

text \<open>
  Line 67 calls \<^verbatim>\<open>mmax\<close>.  The module binds no such name (it imports a fixed list of
  names from \<^verbatim>\<open>builtins\<close>, five forgi modules, \<^verbatim>\<open>argparse\<close>, \<^verbatim>\<open>logging\<close>,
  \<^verbatim>\<open>os.path\<close>, \<^verbatim>\<open>pandas\<close>, \<^verbatim>\<open>defaultdict\<close> and \<^verbatim>\<open>log_to_exception\<close>, and defines
  three functions), and it is no builtin, so evaluating the callee raises
  \<^verbatim>\<open>NameError\<close> before the generator of lengths is consumed.
\<close>

definition mmax :: "nat list \<Rightarrow> exn + nat" where
  "mmax lens = Inl (Exc NameError ''name mmax is not defined'')"

text \<open>The \<^verbatim>\<open>try\<close> of line 66 catches \<^verbatim>\<open>ValueError\<close> only.\<close>

definition longest_ml :: "string list list \<Rightarrow> row \<Rightarrow> exn + row" where
  "longest_ml multiloops data =
     (case mmax (map length multiloops) of
        Inr n \<Rightarrow> Inr (AList.update ''longest_ml'' (VInt (int n)) data)
      | Inl (Exc t msg) \<Rightarrow>
          if t = ValueError then Inr (AList.update ''longest_ml'' (VInt 0) data)
          else Inl (Exc t msg))"

subsection \<open>Lines 70 to 84: shape metrics\<close>

definition shape_metrics :: "externals \<Rightarrow> cg \<Rightarrow> row \<Rightarrow> exn + row" where
  "shape_metrics ext c data =
     (case radius_of_gyration c ''fast'' of
        Inl (Exc t msg) \<Rightarrow>
          if t = RnaMissing3dError \<or> t = AttributeError then
            Inr (AList.update ''asphericity_vres'' VNaN
                (AList.update ''asphericity_fast'' VNaN
                (AList.update ''anisotropy_vres'' VNaN
                (AList.update ''anisotropy_fast'' VNaN
                (AList.update ''rog_vres'' VNaN
                (AList.update ''rog_fast'' VNaN data))))))
          else Inl (Exc t msg)
      | Inr rog_fast \<Rightarrow>
          and_then (radius_of_gyration c ''vres'') (\<lambda>rog_vres.
          and_then (and_then (get_ordered_stem_poss c) (anisotropy ext)) (\<lambda>anisotropy_fast.
          and_then (and_then (get_ordered_virtual_residue_poss c) (anisotropy ext)) (\<lambda>anisotropy_vres.
          and_then (and_then (get_ordered_stem_poss c) (asphericity ext)) (\<lambda>asphericity_fast.
          and_then (and_then (get_ordered_virtual_residue_poss c) (asphericity ext)) (\<lambda>asphericity_vres.
            Inr (AList.update ''asphericity_vres'' asphericity_vres
                (AList.update ''asphericity_fast'' asphericity_fast
                (AList.update ''anisotropy_vres'' anisotropy_vres
                (AList.update ''anisotropy_fast'' anisotropy_fast
                (AList.update ''rog_vres'' rog_vres
                (AList.update ''rog_fast'' rog_fast data))))))))))))"

subsection \<open>Lines 85 to 106: requested distances and angles\<close>

definition lookup_distance :: "externals \<Rightarrow> cg \<Rightarrow> string \<Rightarrow> string \<Rightarrow> exn + val" where
  "lookup_distance ext c from_nt to_nt =
     and_then (py_int ext from_nt) (\<lambda>a.
     and_then (get_virtual_residue c a True) (\<lambda>p.
     and_then (py_int ext to_nt) (\<lambda>b.
     and_then (get_virtual_residue c b True) (\<lambda>q.
       vec_distance ext p q))))"

definition distance_warning :: "cg \<Rightarrow> int \<Rightarrow> string \<Rightarrow> string \<Rightarrow> exn \<Rightarrow> log_record" where
  "distance_warning c file_num from_nt to_nt e =
     (case e of Exc t msg \<Rightarrow>
        LogRecord WARNING
          ''%d%s File %s: Could not calculate distance between %d and %d: %s occurred: %s''
          [VInt file_num, VStr (ordinal_suffix file_num), VStr (name c), VStr from_nt,
           VStr to_nt, VStr (type_name t), VStr msg])"

text \<open>
  \<^verbatim>\<open>for from_nt, to_nt in dist_pairs\<close>: an item that is not of length two fails to
  unpack, outside the \<^verbatim>\<open>try\<close>.  Warnings already logged stay logged.
\<close>

fun distance_loop ::
  "externals \<Rightarrow> cg \<Rightarrow> int \<Rightarrow> string list list \<Rightarrow> row \<Rightarrow> log \<Rightarrow> log \<times> (exn + row)"
where
  "distance_loop ext c file_num [] data lg = (lg, Inr data)"
| "distance_loop ext c file_num (pair # pairs) data lg =
     (case pair of
        [from_nt, to_nt] \<Rightarrow>
          (case lookup_distance ext c from_nt to_nt of
             Inr distance \<Rightarrow>
               distance_loop ext c file_num pairs
                 (AList.update (''distance_'' @ from_nt @ ''_'' @ to_nt) distance data) lg
           | Inl e \<Rightarrow>
               distance_loop ext c file_num pairs
                 (AList.update (''distance_'' @ from_nt @ ''_'' @ to_nt) VNaN data)
                 (lg @ [distance_warning c file_num from_nt to_nt e]))
      | _ \<Rightarrow> (lg, Inl (Exc ValueError ''wrong number of values to unpack'')))"

definition lookup_angle :: "externals \<Rightarrow> cg \<Rightarrow> string \<Rightarrow> string \<Rightarrow> exn + val" where
  "lookup_angle ext c elem1 elem2 =
     and_then (get_direction c elem1) (\<lambda>d1.
     and_then (get_direction c elem2) (\<lambda>d2.
       vec_angle ext d1 d2))"

definition angle_warning :: "cg \<Rightarrow> int \<Rightarrow> string \<Rightarrow> string \<Rightarrow> exn \<Rightarrow> log_record" where
  "angle_warning c file_num elem1 elem2 e =
     (case e of Exc t msg \<Rightarrow>
        LogRecord WARNING
          ''%d%s File %s: Could not calculate angle between %s and %s: %s occurred: %s''
          [VInt file_num, VStr (ordinal_suffix file_num), VStr (name c), VStr elem1,
           VStr elem2, VStr (type_name t), VStr msg])"

fun angle_loop ::
  "externals \<Rightarrow> cg \<Rightarrow> int \<Rightarrow> string list list \<Rightarrow> row \<Rightarrow> log \<Rightarrow> log \<times> (exn + row)"
where
  "angle_loop ext c file_num [] data lg = (lg, Inr data)"
| "angle_loop ext c file_num (pair # pairs) data lg =
     (case pair of
        [elem1, elem2] \<Rightarrow>
          (case lookup_angle ext c elem1 elem2 of
             Inr angle \<Rightarrow>
               angle_loop ext c file_num pairs
                 (AList.update (''angle_'' @ elem1 @ ''_'' @ elem2) angle data) lg
           | Inl e \<Rightarrow>
               angle_loop ext c file_num pairs
                 (AList.update (''angle_'' @ elem1 @ ''_'' @ elem2) VNaN data)
                 (lg @ [angle_warning c file_num elem1 elem2 e]))
      | _ \<Rightarrow> (lg, Inl (Exc ValueError ''wrong number of values to unpack'')))"

subsection \<open>The function\<close>

text \<open>
  The parameter of line 40 is spelt \<^verbatim>\<open>dist_pais\<close>; line 85 reads \<^verbatim>\<open>dist_pairs\<close>, which
  is the module global the script binds before the driver loop (\<open>None\<close> when the global
  is unbound).  The log is threaded through: what was logged before an exception stays.
\<close>

definition describe_rna ::
  "externals \<Rightarrow> string list list option \<Rightarrow> cg \<Rightarrow> int \<Rightarrow> string list list \<Rightarrow> string list list
     \<Rightarrow> log \<Rightarrow> log \<times> (exn + row)"
where
  "describe_rna ext global_dist_pairs c file_num dist_pais angle_pairs lg =
     (case element_counts c of
        Inl e \<Rightarrow> (lg, Inl e)
      | Inr data1 \<Rightarrow>
     (case find_mlonly_multiloops c of
        Inl e \<Rightarrow> (lg, Inl e)
      | Inr multiloops \<Rightarrow>
     (case multiloop_stats c multiloops data1 of
        Inl e \<Rightarrow> (lg, Inl e)
      | Inr data2 \<Rightarrow>
     (case longest_ml multiloops data2 of
        Inl e \<Rightarrow> (lg, Inl e)
      | Inr data3 \<Rightarrow>
     (case shape_metrics ext c data3 of
        Inl e \<Rightarrow> (lg, Inl e)
      | Inr data4 \<Rightarrow>
     (case global_dist_pairs of
        None \<Rightarrow> (lg, Inl (Exc NameError ''name dist_pairs is not defined''))
      | Some dist_pairs \<Rightarrow>
     (case distance_loop ext c file_num dist_pairs data4 lg of
        (lg', Inl e) \<Rightarrow> (lg', Inl e)
      | (lg', Inr data5) \<Rightarrow> angle_loop ext c file_num angle_pairs data5 lg')))))))"

section \<open>The per-segment extractor \<^verbatim>\<open>describe_ml_segments\<close>\<close>

text \<open>
  Lines 117 to 127 for one segment of kind \<^verbatim>\<open>m\<close>: nine appends, in the order of the
  source.  The flags are membership tests on the description of the multiloop.
\<close>

definition segment_cells ::
  "string list \<Rightarrow> string list \<Rightarrow> string \<Rightarrow> val \<Rightarrow> val \<Rightarrow> val \<Rightarrow> val \<Rightarrow> row"
where
  "segment_cells loop description segment segment_length angle_type angle_between_stems
       junction_va_distance =
     [(''segment'', VStr segment),
      (''junction_length'', VInt (int (length loop))),
      (''segment_length'', segment_length),
      (''angle_type'', angle_type),
      (''angle_between_stems'', angle_between_stems),
      (''junction_va_distance'', junction_va_distance),
      (''is_external_multiloop'', VBool (''open'' \<in> set description)),
      (''is_pseudoknotted_multiloop'', VBool (''pseudoknot'' \<in> set description)),
      (''is_regular_multiloop'', VBool (''regular_multiloop'' \<in> set description))]"

definition segment_row ::
  "externals \<Rightarrow> cg \<Rightarrow> string list \<Rightarrow> string list \<Rightarrow> string \<Rightarrow> table \<Rightarrow> exn + table"
where
  "segment_row ext c loop description segment data =
     and_then (get_length c segment) (\<lambda>segment_length.
     and_then (and_then (get_angle_type c segment True) py_abs) (\<lambda>angle_type.
     and_then (connections c segment) (\<lambda>conn.
       (case conn of
          [s1, s2] \<Rightarrow>
            and_then (lookup_angle ext c s1 s2) (\<lambda>angle_between_stems.
            and_then (junction_virtual_atom_distance ext c segment) (\<lambda>junction_va_distance.
              Inr (append_items
                     (segment_cells loop description segment segment_length angle_type
                        angle_between_stems junction_va_distance)
                     data)))
        | _ \<Rightarrow> Inl (Exc ValueError ''wrong number of values to unpack'')))))"

text \<open>The loop of line 114 over the segments of one multiloop.\<close>

fun segment_loop ::
  "externals \<Rightarrow> cg \<Rightarrow> string list \<Rightarrow> string list \<Rightarrow> string list \<Rightarrow> table \<Rightarrow> exn + table"
where
  "segment_loop ext c loop description [] data = Inr data"
| "segment_loop ext c loop description (segment # segments) data =
     (case segment of
        [] \<Rightarrow> Inl (Exc IndexError ''string index out of range'')
      | k # _ \<Rightarrow>
          if k \<noteq> CHR ''m'' then segment_loop ext c loop description segments data
          else (case segment_row ext c loop description segment data of
                  Inl e \<Rightarrow> Inl e
                | Inr data' \<Rightarrow> segment_loop ext c loop description segments data'))"

text \<open>The loop of line 112 over the multiloops.\<close>

fun loops_loop :: "externals \<Rightarrow> cg \<Rightarrow> string list list \<Rightarrow> table \<Rightarrow> exn + table" where
  "loops_loop ext c [] data = Inr data"
| "loops_loop ext c (loop # loops) data =
     (case describe_multiloop c loop of
        Inl e \<Rightarrow> Inl e
      | Inr description \<Rightarrow>
          (case segment_loop ext c loop description loop data of
             Inl e \<Rightarrow> Inl e
           | Inr data' \<Rightarrow> loops_loop ext c loops data'))"

definition describe_ml_segments :: "externals \<Rightarrow> cg \<Rightarrow> exn + table" where
  "describe_ml_segments ext c =
     (case find_mlonly_multiloops c of
        Inl e \<Rightarrow> Inl e
      | Inr loops \<Rightarrow> loops_loop ext c loops [])"

text \<open>
  What the rows are to be compared with: the segments of kind \<^verbatim>\<open>m\<close>, each with the
  multiloop it was found in, in the order of the two loops.
\<close>

definition is_m :: "string \<Rightarrow> bool" where
  "is_m segment = (case segment of [] \<Rightarrow> False | k # _ \<Rightarrow> k = CHR ''m'')"

definition loop_rows :: "string list list \<Rightarrow> (string \<times> string list) list" where
  "loop_rows loops =
     concat (map (\<lambda>loop. map (\<lambda>segment. (segment, loop)) (filter is_m loop)) loops)"

section \<open>The driver\<close>

record args =
  csv :: "string option"
  keys :: "string option"
  angles :: "string option"
  distances :: "string option"
  per_ml :: bool
  mode :: "string option"

text \<open>
  What the script can observe and change: the log, the regular files by path, the
  display options of pandas and the standard output.
\<close>

record world =
  logged :: log
  files :: "string \<rightharpoonup> string"
  display_options :: "(string \<times> int) list"
  stdout :: "string list"

text \<open>The truth value of an optional string argument: \<^verbatim>\<open>None\<close> and \<^verbatim>\<open>""\<close> are false.\<close>

definition truthy :: "string option \<Rightarrow> bool" where
  "truthy a = (a \<noteq> None \<and> a \<noteq> Some [])"

text \<open>Lines 137 to 147: \<^verbatim>\<open>'1,20:2,19'\<close> becomes \<^verbatim>\<open>[['1','20'],['2','19']]\<close>.\<close>

definition parse_pairs :: "string option \<Rightarrow> string list list" where
  "parse_pairs a =
     (case a of
        None \<Rightarrow> []
      | Some s \<Rightarrow> if s = [] then [] else map (split_on CHR '','') (split_on CHR '':'' s))"

definition info_record :: "int \<Rightarrow> cg \<Rightarrow> log_record" where
  "info_record file_num c =
     LogRecord INFO ''Describing the %d%s cg %s''
       [VInt file_num, VStr (ordinal_suffix file_num), VStr (name c)]"

definition error_record :: "int \<Rightarrow> cg \<Rightarrow> log_record" where
  "error_record file_num c =
     LogRecord ERROR ''Error occurred during describing %d%s cg %s''
       [VInt file_num, VStr (ordinal_suffix file_num), VStr (name c)]"

text \<open>\<^verbatim>\<open>for k,v in new_data.items(): data[k].append(v[i])\<close>.\<close>

fun append_items_at :: "table \<Rightarrow> nat \<Rightarrow> table \<Rightarrow> exn + table" where
  "append_items_at [] i data = Inr data"
| "append_items_at ((k, v) # kvs) i data =
     (if i < length v then append_items_at kvs i (append_col k (v ! i) data)
      else Inl (Exc IndexError ''list index out of range''))"

text \<open>Lines 155 to 159: one row per position of the segment column.\<close>

fun append_rows :: "row \<Rightarrow> table \<Rightarrow> nat list \<Rightarrow> table \<Rightarrow> exn + table" where
  "append_rows key new_data [] data = Inr data"
| "append_rows key new_data (i # positions) data =
     (case append_items_at new_data i (append_items key data) of
        Inl e \<Rightarrow> Inl e
      | Inr data' \<Rightarrow> append_rows key new_data positions data')"

text \<open>
  Lines 152 to 165, the body of the \<^verbatim>\<open>try\<close> for the structure at position \<open>i\<close>.
  \<^verbatim>\<open>describe_rna\<close> is called with the lists the script parsed, which are also the
  module globals of those names.
\<close>

definition try_body ::
  "externals \<Rightarrow> args \<Rightarrow> string list list \<Rightarrow> string list list \<Rightarrow> string list \<Rightarrow> nat \<Rightarrow> cg
     \<Rightarrow> table \<Rightarrow> log \<Rightarrow> log \<times> (exn + table)"
where
  "try_body ext a dist_pairs angle_pairs filenames i c data lg =
     (if i < length filenames then
        (let key = [(''name'', VStr (name c)), (''filename'', VStr (filenames ! i))] in
         if per_ml a then
           (case describe_ml_segments ext c of
              Inl e \<Rightarrow> (lg, Inl e)
            | Inr new_data \<Rightarrow>
                (lg, append_rows key new_data [0..<length (column ''segment'' new_data)] data))
         else
           (case describe_rna ext (Some dist_pairs) c (int i + 1) dist_pairs angle_pairs lg of
              (lg', Inl e) \<Rightarrow> (lg', Inl e)
            | (lg', Inr new_data) \<Rightarrow> (lg', Inr (append_items new_data (append_items key data)))))
      else (lg, Inl (Exc IndexError ''list index out of range'')))"

text \<open>
  Lines 148 to 169.  The handler logs at error level (inside \<^verbatim>\<open>log_to_exception\<close>) and
  raises again, so the loop ends at the first structure whose extraction raises.
\<close>

fun driver_loop ::
  "externals \<Rightarrow> args \<Rightarrow> string list list \<Rightarrow> string list list \<Rightarrow> string list \<Rightarrow> (nat \<times> cg) list
     \<Rightarrow> table \<Rightarrow> log \<Rightarrow> log \<times> (exn + table)"
where
  "driver_loop ext a dist_pairs angle_pairs filenames [] data lg = (lg, Inr data)"
| "driver_loop ext a dist_pairs angle_pairs filenames ((i, c) # rest) data lg =
     (case try_body ext a dist_pairs angle_pairs filenames i c data
             (lg @ [info_record (int i + 1) c]) of
        (lg', Inl e) \<Rightarrow> (lg' @ [error_record (int i + 1) c], Inl e)
      | (lg', Inr data') \<Rightarrow> driver_loop ext a dist_pairs angle_pairs filenames rest data' lg')"

section \<open>Column filter, table and output\<close>

text \<open>Lines 170 to 174.\<close>

fun delete_unlisted :: "string list \<Rightarrow> string list \<Rightarrow> table \<Rightarrow> table" where
  "delete_unlisted allowed_keys [] data = data"
| "delete_unlisted allowed_keys (key # ks) data =
     delete_unlisted allowed_keys ks
       (if key \<in> set allowed_keys then data else AList.delete key data)"

definition filter_keys :: "args \<Rightarrow> table \<Rightarrow> table" where
  "filter_keys a data =
     (case keys a of
        None \<Rightarrow> data
      | Some ks \<Rightarrow>
          if ks = [] then data
          else delete_unlisted (split_on CHR '','' ks @ [''name'']) (map fst data) data)"

text \<open>
  Lines 175 and 176.  \<^verbatim>\<open>pd.DataFrame\<close> refuses columns of different lengths and
  \<^verbatim>\<open>set_index("name", append=True)\<close> a table without that column; otherwise the
  column moves into the index.
\<close>

definition build_table :: "table \<Rightarrow> exn + data_frame" where
  "build_table data =
     (if 1 < length (remdups (map (\<lambda>kv. length (snd kv)) data)) then
        Inl (Exc ValueError ''All arrays must be of the same length'')
      else (case map_of data ''name'' of
              None \<Rightarrow> Inl (Exc KeyError ''name'')
            | Some v \<Rightarrow>
                Inr \<lparr>index_levels = [(''name'', v)], columns = AList.delete ''name'' data\<rparr>))"

text \<open>Lines 177 to 190.  Writing is taken to succeed; a raise leaves the world as it was.\<close>

definition isfile :: "world \<Rightarrow> string \<Rightarrow> bool" where
  "isfile w path = (files w path \<noteq> None)"

definition to_csv :: "externals \<Rightarrow> data_frame \<Rightarrow> string \<Rightarrow> char \<Rightarrow> world \<Rightarrow> world" where
  "to_csv ext df path m w =
     (if m = CHR ''a'' then
        w\<lparr>files := (files w)(path \<mapsto>
              (case files w path of None \<Rightarrow> [] | Some old \<Rightarrow> old) @ to_csv_text ext df)\<rparr>
      else w\<lparr>files := (files w)(path \<mapsto> to_csv_text ext df)\<rparr>)"

definition print_table :: "externals \<Rightarrow> data_frame \<Rightarrow> world \<Rightarrow> world" where
  "print_table ext df w =
     w\<lparr>display_options :=
         AList.update ''max_rows'' 200 (AList.update ''max_columns'' 99 (display_options w)),
       stdout := stdout w @ [df_repr ext df]\<rparr>"

definition output_stage :: "externals \<Rightarrow> args \<Rightarrow> data_frame \<Rightarrow> world \<Rightarrow> world \<times> exn option" where
  "output_stage ext a df w =
     (case csv a of
        None \<Rightarrow> (print_table ext df w, None)
      | Some path \<Rightarrow>
          if path = [] then (print_table ext df w, None)
          else if \<not> truthy (mode a) \<and> isfile w path then
            (w, Some (Exc RuntimeError (''File '' @ path @ '' exists already.'')))
          else if \<not> truthy (mode a) \<or> mode a = Some ''o'' then
            (to_csv ext df path CHR ''w'' w, None)
          else if mode a = Some ''a'' then
            (to_csv ext df path CHR ''a'' w, None)
          else (w, Some (Exc ValueError ''Mode must be one of a and o'')))"

section \<open>The script\<close>

text \<open>
  Lines 133 to 190; \<open>cgs\<close> and \<open>filenames\<close> are what \<^verbatim>\<open>fuc.cgs_from_args\<close> returned.
  The result is the world the process leaves and the exception it died of, if any.
\<close>

definition main ::
  "externals \<Rightarrow> args \<Rightarrow> cg list \<Rightarrow> string list \<Rightarrow> world \<Rightarrow> world \<times> exn option"
where
  "main ext a cgs filenames w =
     (case driver_loop ext a (parse_pairs (distances a)) (parse_pairs (angles a)) filenames
             (enumerate 0 cgs) [] (logged w) of
        (lg, Inl e) \<Rightarrow> (w\<lparr>logged := lg\<rparr>, Some e)
      | (lg, Inr data) \<Rightarrow>
          (case build_table (filter_keys a data) of
             Inl e \<Rightarrow> (w\<lparr>logged := lg\<rparr>, Some e)
           | Inr df \<Rightarrow> output_stage ext a df (w\<lparr>logged := lg\<rparr>)))"

section \<open>Example inputs\<close>

text \<open>
  Stand-ins for the library and two structures: a hairpin without 3D coordinates and
  without multiloops, and a three-way junction with an exterior loop.
\<close>

definition sample_ext :: externals where
  "sample_ext =
     \<lparr>vec_distance = (\<lambda>p q. Inr (VFloat 7)),
      vec_angle = (\<lambda>p q. Inr (VFloat 1)),
      anisotropy = (\<lambda>ps. Inr (VFloat 2)),
      asphericity = (\<lambda>ps. Inr (VFloat 3)),
      junction_virtual_atom_distance = (\<lambda>c s. Inr (VFloat 4)),
      py_int = (\<lambda>s. if s = ''1'' then Inr 1 else if s = ''2'' then Inr 2
                     else Inl (Exc ValueError ''invalid literal for int()'')),
      to_csv_text = (\<lambda>df. concat (map fst (index_levels df @ columns df))),
      df_repr = (\<lambda>df. concat (map fst (index_levels df @ columns df)))\<rparr>"

definition hairpin :: cg where
  "hairpin =
     \<lparr>name = ''hairpin'', seq_length = 12,
      defines_dict = [''f0'', ''s0'', ''h0'', ''t0''],
      find_mlonly_multiloops = Inr [],
      describe_multiloop = (\<lambda>ml. Inr []),
      radius_of_gyration = (\<lambda>m. Inl (Exc RnaMissing3dError ''No 3D information'')),
      get_ordered_stem_poss = Inl (Exc RnaMissing3dError ''No 3D information''),
      get_ordered_virtual_residue_poss = Inl (Exc RnaMissing3dError ''No 3D information''),
      get_virtual_residue = (\<lambda>i b. Inl (Exc RnaMissing3dError ''No 3D information'')),
      get_direction = (\<lambda>e. Inl (Exc KeyError e)),
      get_length = (\<lambda>e. Inr (VInt 4)),
      get_angle_type = (\<lambda>e b. Inr (VInt 0)),
      connections = (\<lambda>e. Inr [])\<rparr>"

definition junction :: cg where
  "junction =
     \<lparr>name = ''junction'', seq_length = 60,
      defines_dict = [''s0'', ''s1'', ''s2'', ''m0'', ''m1'', ''m2'', ''f0'', ''t0'', ''h0'', ''h1''],
      find_mlonly_multiloops = Inr [[''f0'', ''t0''], [''m0'', ''m1'', ''m2'']],
      describe_multiloop =
        (\<lambda>ml. if ml = [''f0'', ''t0''] then Inr [''open''] else Inr [''regular_multiloop'']),
      radius_of_gyration = (\<lambda>m. Inr (VFloat 15)),
      get_ordered_stem_poss = Inr [[0, 0, 0], [1, 0, 0]],
      get_ordered_virtual_residue_poss = Inr [[0, 0, 0], [0, 1, 0]],
      get_virtual_residue = (\<lambda>i b. if 1 \<le> i \<and> i \<le> 60 then Inr [0, 0, real_of_int i]
                                   else Inl (Exc IndexError ''nucleotide out of range'')),
      get_direction = (\<lambda>e. if e \<in> set [''s0'', ''s1'', ''s2''] then Inr [0, 0, 1]
                              else Inl (Exc KeyError e)),
      get_length = (\<lambda>e. Inr (VInt 3)),
      get_angle_type = (\<lambda>e b. Inr (VInt (- 2))),
      connections = (\<lambda>e. if e = ''m0'' then Inr [''s0'', ''s1'']
                            else if e = ''m1'' then Inr [''s1'', ''s2'']
                            else if e = ''m2'' then Inr [''s2'', ''s0'']
                            else Inr [])\<rparr>"

definition no_args :: args where
  "no_args =
     \<lparr>csv = None, keys = None, angles = None, distances = None, per_ml = False,
      mode = None\<rparr>"

definition empty_world :: world where
  "empty_world = \<lparr>logged = [], files = Map.empty, display_options = [], stdout = []\<rparr>"

definition broken_junction :: cg where
  "broken_junction = junction\<lparr>name := ''broken'', connections := (\<lambda>e. Inr [''s0''])\<rparr>"

definition per_ml_args :: args where
  "per_ml_args = no_args\<lparr>per_ml := True\<rparr>"

definition sample_df :: data_frame where
  "sample_df = \<lparr>index_levels = [(''name'', [VStr ''junction''])],
                 columns = [(''segment'', [VStr ''m0''])]\<rparr>"

definition csv_args :: "string option \<Rightarrow> args" where
  "csv_args m = no_args\<lparr>csv := Some ''out.csv'', mode := m\<rparr>"

definition world_with_file :: world where
  "world_with_file = empty_world\<lparr>files := [''out.csv'' \<mapsto> ''old'']\<rparr>"

definition sample_table :: table where
  "sample_table =
     [(''name'', [VStr ''junction'']), (''filename'', [VStr ''a.cg'']),
      (''segment'', [VStr ''m0'']), (''junction_length'', [VInt 3]),
      (''angle_type'', [VInt 2])]"

section \<open>Notions for the proofs\<close>

text \<open>Notions the proofs about the per-segment rows use: the nine column names,
  the cells a row holds under one name, the row at one position of a table, and what
  it means for a row to be the row of a segment in its multiloop.\<close>

definition segment_keys :: "string list" where
  "segment_keys =
     [''segment'', ''junction_length'', ''segment_length'', ''angle_type'',
      ''angle_between_stems'', ''junction_va_distance'', ''is_external_multiloop'',
      ''is_pseudoknotted_multiloop'', ''is_regular_multiloop'']"

definition cells_of :: "string \<Rightarrow> row \<Rightarrow> val list" where
  "cells_of k r = map snd (filter (\<lambda>kv. fst kv = k) r)"

definition row_at :: "table \<Rightarrow> nat \<Rightarrow> row" where
  "row_at new_data i = map (\<lambda>kv. (fst kv, snd kv ! i)) new_data"

definition row_of :: "cg \<Rightarrow> string \<times> string list \<Rightarrow> row \<Rightarrow> bool" where
  "row_of c sl r = (\<exists>d v1 v2 v3 v4. describe_multiloop c (snd sl) = Inr d \<and>
      r = segment_cells (snd sl) d (fst sl) v1 v2 v3 v4)"

definition junction_segments :: table where
  "junction_segments =
     [(''segment'', [VStr ''m0'', VStr ''m1'', VStr ''m2'']),
      (''junction_length'', [VInt 3, VInt 3, VInt 3]),
      (''segment_length'', [VInt 3, VInt 3, VInt 3]),
      (''angle_type'', [VInt 2, VInt 2, VInt 2]),
      (''angle_between_stems'', [VFloat 1, VFloat 1, VFloat 1]),
      (''junction_va_distance'', [VFloat 4, VFloat 4, VFloat 4]),
      (''is_external_multiloop'', [VBool False, VBool False, VBool False]),
      (''is_pseudoknotted_multiloop'', [VBool False, VBool False, VBool False]),
      (''is_regular_multiloop'', [VBool True, VBool True, VBool True])]"

definition junction_multiloop_stats :: row where
  "junction_multiloop_stats =
     [(''3-way-junctions'', VInt 1), (''4-way-junctions'', VInt 0), (''open_mls'', VInt 0),
      (''pseudoknots'', VInt 0), (''regular_mls'', VInt 1), (''total_mls'', VInt 2)]"

definition junction_counts :: row where
  "junction_counts =
     [(''nt_length'', VInt 60), (''num_cg_elems'', VInt 10), (''num_s'', VInt 3),
      (''num_m'', VInt 3), (''num_i'', VInt 0), (''num_f'', VInt 1), (''num_t'', VInt 1),
      (''num_h'', VInt 2)]"

section \<open>The whole-structure extractor returns no row\<close>

lemma longest_ml_raises:
  "longest_ml multiloops data = Inl (Exc NameError ''name mmax is not defined'')"
  by (simp add: longest_ml_def mmax_def)

text \<open>Whatever the structure, \<^verbatim>\<open>describe_rna\<close> ends in an exception and logs nothing.\<close>

lemma describe_rna_raises: "\<exists>e. describe_rna ext g c n dp ap lg = (lg, Inl e)"
  by (simp add: describe_rna_def longest_ml_raises split: sum.split)

text \<open>
  C1.  The feature row should hold \<^verbatim>\<open>longest_ml = 0\<close> for a structure with no
  multiloops.  The hairpin has none; line 67 raises \<^verbatim>\<open>NameError\<close>, which the handler
  for \<^verbatim>\<open>ValueError\<close> does not catch, and no row is returned.
\<close>

theorem longest_ml_name_error:
  "find_mlonly_multiloops hairpin = Inr [] \<and>
   describe_rna sample_ext (Some []) hairpin 1 [] [] [] =
     ([], Inl (Exc NameError ''name mmax is not defined''))"
  by (simp add: describe_rna_def element_counts_def hairpin_def multiloop_stats_def
      longest_ml_def mmax_def)

section \<open>The failure boundary of the driver\<close>

text \<open>Structures that were processed without an exception only move the table and the log on.\<close>

lemma driver_loop_append:
  "driver_loop ext a dp ap fns xs data lg = (lg1, Inr data1) \<Longrightarrow>
   driver_loop ext a dp ap fns (xs @ ys) data lg = driver_loop ext a dp ap fns ys data1 lg1"
proof (induction xs arbitrary: data lg)
  case Nil
  then show ?case by simp
next
  case (Cons x xs)
  obtain i c where x: "x = (i, c)" by (cases x)
  obtain lg' r where tb: "try_body ext a dp ap fns i c data (lg @ [info_record (int i + 1) c]) = (lg', r)"
    by (cases "try_body ext a dp ap fns i c data (lg @ [info_record (int i + 1) c])")
  show ?case
  proof (cases r)
    case (Inl e)
    with Cons.prems x tb show ?thesis by simp
  next
    case (Inr data')
    with Cons.prems x tb have "driver_loop ext a dp ap fns xs data' lg' = (lg1, Inr data1)" by simp
    from Cons.IH [OF this] x tb Inr show ?thesis by simp
  qed
qed

lemma hairpin_no_rows:
  "driver_loop sample_ext per_ml_args [] [] [''a.cg'', ''b.cg'', ''c.cg'']
      [(0, hairpin)] [] [] = ([info_record 1 hairpin], Inr [])"
  by (simp add: try_body_def describe_ml_segments_def hairpin_def per_ml_args_def no_args_def column_def)

lemma broken_segments:
  "describe_ml_segments sample_ext broken_junction =
     Inl (Exc ValueError ''wrong number of values to unpack'')"
  by (simp add: describe_ml_segments_def segment_row_def and_then_def broken_junction_def
      junction_def)

text \<open>The suffixes line 168 (and line 150) puts after the ordinal.\<close>

lemma ordinal_suffix_examples:
  "map ordinal_suffix [1, 2, 3, 4, 10, 11, 12, 13, 21, 22, 23, 101, 111, 112] =
     [''st'', ''nd'', ''rd'', ''th'', ''th'', ''th'', ''th'', ''th'', ''st'', ''nd'', ''rd'',
      ''st'', ''th'', ''th'']"
  by (simp add: ordinal_suffix_def)

text \<open>
  C5.  When the structures before \<open>c\<close> were processed and the extraction of \<open>c\<close> raises
  \<open>e\<close>, the run ends with \<open>e\<close>: the last record of the log is the one of line 168, at
  level \<^verbatim>\<open>ERROR\<close>, with the 1-based ordinal of \<open>c\<close>, its suffix and the name of \<open>c\<close>;
  the files and the standard output are those of the start; and nothing depends on
  the structures after \<open>c\<close>.
\<close>

theorem failed_structure_aborts_run:
  assumes "driver_loop ext a (parse_pairs (distances a)) (parse_pairs (angles a)) filenames
             (enumerate 0 pre) [] (logged w) = (lg1, Inr data1)"
    and "try_body ext a (parse_pairs (distances a)) (parse_pairs (angles a)) filenames
             (length pre) c data1
             (lg1 @ [LogRecord INFO ''Describing the %d%s cg %s''
                       [VInt (int (length pre) + 1),
                        VStr (ordinal_suffix (int (length pre) + 1)), VStr (name c)]]) =
           (lg2, Inl e)"
  shows "main ext a (pre @ c # rest) filenames w =
           (w\<lparr>logged := lg2 @ [LogRecord ERROR ''Error occurred during describing %d%s cg %s''
                                 [VInt (int (length pre) + 1),
                                  VStr (ordinal_suffix (int (length pre) + 1)),
                                  VStr (name c)]]\<rparr>,
            Some e)"
proof -
  have "enumerate 0 (pre @ c # rest) =
          enumerate 0 pre @ (length pre, c) # enumerate (Suc (length pre)) rest"
    by (simp add: enumerate_append_eq)
  then have "driver_loop ext a (parse_pairs (distances a)) (parse_pairs (angles a)) filenames
               (enumerate 0 (pre @ c # rest)) [] (logged w) =
             (lg2 @ [error_record (int (length pre) + 1) c], Inl e)"
    using driver_loop_append [OF assms(1)] assms(2) by (simp add: info_record_def)
  then show ?thesis by (simp add: main_def error_record_def)
qed

theorem failed_structure_aborts_run_witness:
  "main sample_ext per_ml_args [hairpin, broken_junction, junction]
     [''a.cg'', ''b.cg'', ''c.cg''] empty_world =
   (empty_world\<lparr>logged :=
      [LogRecord INFO ''Describing the %d%s cg %s'' [VInt 1, VStr ''st'', VStr ''hairpin''],
       LogRecord INFO ''Describing the %d%s cg %s'' [VInt 2, VStr ''nd'', VStr ''broken''],
       LogRecord ERROR ''Error occurred during describing %d%s cg %s''
         [VInt 2, VStr ''nd'', VStr ''broken'']]\<rparr>,
    Some (Exc ValueError ''wrong number of values to unpack''))"
proof -
  have pp: "parse_pairs (distances per_ml_args) = []" "parse_pairs (angles per_ml_args) = []"
    by (simp_all add: parse_pairs_def per_ml_args_def no_args_def)
  have nm: "name hairpin = ''hairpin''" "name broken_junction = ''broken''"
    by (simp_all add: hairpin_def broken_junction_def)
  have os: "ordinal_suffix 1 = ''st''" "ordinal_suffix 2 = ''nd''"
    by (simp_all add: ordinal_suffix_def)
  have h1: "driver_loop sample_ext per_ml_args (parse_pairs (distances per_ml_args))
      (parse_pairs (angles per_ml_args)) [''a.cg'', ''b.cg'', ''c.cg'']
      (enumerate 0 [hairpin]) [] (logged empty_world) =
      ([LogRecord INFO ''Describing the %d%s cg %s'' [VInt 1, VStr ''st'', VStr ''hairpin'']],
       Inr [])"
    using hairpin_no_rows by (simp add: pp empty_world_def info_record_def nm os)
  have h2: "try_body sample_ext per_ml_args (parse_pairs (distances per_ml_args))
      (parse_pairs (angles per_ml_args)) [''a.cg'', ''b.cg'', ''c.cg'']
      (length [hairpin]) broken_junction []
      ([LogRecord INFO ''Describing the %d%s cg %s'' [VInt 1, VStr ''st'', VStr ''hairpin'']] @
       [LogRecord INFO ''Describing the %d%s cg %s''
          [VInt (int (length [hairpin]) + 1),
           VStr (ordinal_suffix (int (length [hairpin]) + 1)), VStr (name broken_junction)]]) =
      ([LogRecord INFO ''Describing the %d%s cg %s'' [VInt 1, VStr ''st'', VStr ''hairpin''],
        LogRecord INFO ''Describing the %d%s cg %s'' [VInt 2, VStr ''nd'', VStr ''broken'']],
       Inl (Exc ValueError ''wrong number of values to unpack''))"
    by (simp add: pp try_body_def broken_segments per_ml_args_def no_args_def nm os)
  show ?thesis
    using failed_structure_aborts_run [OF h1 h2, of "[junction]"] by (simp add: nm os)
qed

section \<open>The column filter\<close>

lemma split_on_no_sep: "sep \<notin> set s \<Longrightarrow> split_on sep s = [s]"
  by (induction s) auto

lemma split_on_first: "sep \<notin> set s \<Longrightarrow> split_on sep (s @ sep # r) = s # split_on sep r"
  by (induction s) auto

lemma delete_unlisted_keys:
  "fst ` set (delete_unlisted allowed ks data) =
     {k \<in> fst ` set data. k \<in> set allowed \<or> k \<notin> set ks}"
proof (induction ks arbitrary: data)
  case Nil
  then show ?case by simp
next
  case (Cons k ks)
  have "fst ` set (AList.delete k data) = fst ` set data - {k}"
    using delete_keys [of k data] by (metis set_map set_removeAll)
  with Cons show ?case by auto
qed

lemma filter_keys_keys:
  assumes "keys a = Some ks" and "ks \<noteq> []"
  shows "fst ` set (filter_keys a data) =
           (set (split_on CHR '','' ks) \<union> {''name''}) \<inter> fst ` set data"
  using assms by (auto simp add: filter_keys_def delete_unlisted_keys)

lemma build_table_labels:
  assumes "build_table data = Inr df"
  shows "fst ` set (index_levels df @ columns df) = fst ` set data"
    and "map fst (index_levels df) = [''name'']"
    and "''name'' \<notin> fst ` set (columns df)"
proof -
  from assms obtain v where v: "map_of data ''name'' = Some v"
    and df: "df = \<lparr>index_levels = [(''name'', v)], columns = AList.delete ''name'' data\<rparr>"
    by (auto simp add: build_table_def split: if_splits option.splits)
  have k: "fst ` set (AList.delete ''name'' data) = fst ` set data - {''name''}"
    using delete_keys [of "''name''" data] by (metis set_map set_removeAll)
  from v have "''name'' \<in> fst ` set data" by (metis map_of_eq_None_iff option.distinct(1))
  with df k show "fst ` set (index_levels df @ columns df) = fst ` set data" by auto
  from df show "map fst (index_levels df) = [''name'']" by simp
  from df k show "''name'' \<notin> fst ` set (columns df)" by simp
qed

text \<open>
  C8.  With \<^verbatim>\<open>--keys k1,k2\<close> the columns left in the table are those of \<open>k1\<close>, \<open>k2\<close>
  and \<^verbatim>\<open>name\<close> that extraction produced; every other column, \<^verbatim>\<open>filename\<close> among
  them, is deleted.  In the data frame \<^verbatim>\<open>name\<close> is the index level and the rest are
  the columns.
\<close>

theorem keys_filter_columns:
  assumes "CHR '','' \<notin> set k1" and "CHR '','' \<notin> set k2"
    and "keys a = Some (k1 @ '','' @ k2)"
  shows "fst ` set (filter_keys a data) = {k1, k2, ''name''} \<inter> fst ` set data \<and>
         (\<forall>df. build_table (filter_keys a data) = Inr df \<longrightarrow>
            map fst (index_levels df) = [''name''] \<and>
            fst ` set (index_levels df @ columns df) = {k1, k2, ''name''} \<inter> fst ` set data)"
proof -
  have "split_on CHR '','' (k1 @ '','' @ k2) = [k1, k2]"
    using split_on_first [OF assms(1), of k2] split_on_no_sep [OF assms(2)] by simp
  with filter_keys_keys [OF assms(3), of data]
  have 1: "fst ` set (filter_keys a data) = {k1, k2, ''name''} \<inter> fst ` set data" by auto
  then show ?thesis using build_table_labels(1,2) by metis
qed

theorem keys_filter_columns_witness:
  "fst ` set (filter_keys (no_args\<lparr>keys := Some ''segment,angle_type''\<rparr>) sample_table) =
     {''segment'', ''angle_type'', ''name''} \<and>
   ''filename'' \<in> fst ` set sample_table"
proof -
  have h: "CHR '','' \<notin> set ''segment''" "CHR '','' \<notin> set ''angle_type''"
    "keys (no_args\<lparr>keys := Some ''segment,angle_type''\<rparr>) = Some (''segment'' @ '','' @ ''angle_type'')"
    by (simp_all add: no_args_def)
  have "{''segment'', ''angle_type'', ''name''} \<inter> fst ` set sample_table =
          {''segment'', ''angle_type'', ''name''}"
    by (auto simp add: sample_table_def)
  then show ?thesis
    using keys_filter_columns [OF h, of sample_table] by (simp add: sample_table_def)
qed


section \<open>The output stage\<close>

text \<open>
  C6, as the claim states it, fails for empty arguments.  \<^verbatim>\<open>--mode ''\<close> is a value
  other than \<^verbatim>\<open>a\<close> and \<^verbatim>\<open>o\<close>, yet line 180 takes it for no mode and the file is
  written; and with \<^verbatim>\<open>--csv ''\<close> line 177 takes the path for absent, so that mode
  \<^verbatim>\<open>x\<close> raises nothing and the table is printed.
\<close>

theorem empty_arguments_count_as_absent:
  "mode (csv_args (Some '''')) = Some '''' \<and>
   csv (csv_args (Some '''')) = Some ''out.csv'' \<and>
   output_stage sample_ext (csv_args (Some '''')) sample_df empty_world =
     (empty_world\<lparr>files := [''out.csv'' \<mapsto> ''namesegment'']\<rparr>, None) \<and>
   snd (output_stage sample_ext (no_args\<lparr>csv := Some '''', mode := Some ''x''\<rparr>)
          sample_df world_with_file) = None \<and>
   stdout (fst (output_stage sample_ext (no_args\<lparr>csv := Some '''', mode := Some ''x''\<rparr>)
          sample_df world_with_file)) = [''namesegment'']"
  by (simp add: csv_args_def no_args_def output_stage_def truthy_def isfile_def empty_world_def
      to_csv_def sample_ext_def sample_df_def print_table_def world_with_file_def)

text \<open>
  C6, amended.  With an empty CSV path the table is printed, nothing is raised and no
  file changes, whatever the mode.  With a non-empty CSV path: without a mode (absent
  or empty) an existing file gives \<^verbatim>\<open>RuntimeError\<close> and the world is untouched; mode
  \<^verbatim>\<open>o\<close>, or no mode and no such file, replaces the file's content; mode \<^verbatim>\<open>a\<close> appends
  to it; every other non-empty mode gives \<^verbatim>\<open>ValueError\<close> and the world is untouched.
\<close>

theorem csv_write_modes:
  assumes "csv a = Some path"
  shows "(path = [] \<longrightarrow>
            snd (output_stage ext a df w) = None \<and>
            stdout (fst (output_stage ext a df w)) = stdout w @ [df_repr ext df] \<and>
            files (fst (output_stage ext a df w)) = files w) \<and>
         (path \<noteq> [] \<and> (mode a = None \<or> mode a = Some []) \<and> files w path \<noteq> None \<longrightarrow>
            output_stage ext a df w =
              (w, Some (Exc RuntimeError (''File '' @ path @ '' exists already.'')))) \<and>
         (path \<noteq> [] \<and>
            (mode a = Some ''o'' \<or> (mode a = None \<or> mode a = Some []) \<and> files w path = None) \<longrightarrow>
            output_stage ext a df w =
              (w\<lparr>files := (files w)(path \<mapsto> to_csv_text ext df)\<rparr>, None)) \<and>
         (path \<noteq> [] \<and> mode a = Some ''a'' \<longrightarrow>
            output_stage ext a df w =
              (w\<lparr>files := (files w)(path \<mapsto>
                  (case files w path of None \<Rightarrow> [] | Some old \<Rightarrow> old) @ to_csv_text ext df)\<rparr>,
               None)) \<and>
         (path \<noteq> [] \<and> mode a \<noteq> None \<and> mode a \<noteq> Some [] \<and> mode a \<noteq> Some ''o'' \<and>
            mode a \<noteq> Some ''a'' \<longrightarrow>
            output_stage ext a df w = (w, Some (Exc ValueError ''Mode must be one of a and o'')))"
  using assms by (auto simp add: output_stage_def truthy_def to_csv_def isfile_def print_table_def)

theorem csv_write_modes_witness:
  "output_stage sample_ext (csv_args None) sample_df world_with_file =
     (world_with_file, Some (Exc RuntimeError ''File out.csv exists already.'')) \<and>
   output_stage sample_ext (csv_args None) sample_df empty_world =
     (empty_world\<lparr>files := [''out.csv'' \<mapsto> ''namesegment'']\<rparr>, None) \<and>
   output_stage sample_ext (csv_args (Some ''o'')) sample_df world_with_file =
     (world_with_file\<lparr>files := [''out.csv'' \<mapsto> ''namesegment'']\<rparr>, None) \<and>
   output_stage sample_ext (csv_args (Some ''a'')) sample_df world_with_file =
     (world_with_file\<lparr>files := [''out.csv'' \<mapsto> ''oldnamesegment'']\<rparr>, None) \<and>
   output_stage sample_ext (csv_args (Some ''x'')) sample_df world_with_file =
     (world_with_file, Some (Exc ValueError ''Mode must be one of a and o'')) \<and>
   snd (output_stage sample_ext (no_args\<lparr>csv := Some '''', mode := Some ''x''\<rparr>)
          sample_df world_with_file) = None \<and>
   stdout (fst (output_stage sample_ext (no_args\<lparr>csv := Some '''', mode := Some ''x''\<rparr>)
          sample_df world_with_file)) = [''namesegment'']"
proof -
  have c: "csv (csv_args m) = Some ''out.csv''" for m
    by (simp add: csv_args_def no_args_def)
  have c0: "csv (no_args\<lparr>csv := Some '''', mode := Some ''x''\<rparr>) = Some ''''"
    by (simp add: no_args_def)
  have m: "mode (csv_args m) = m" for m
    by (simp add: csv_args_def no_args_def)
  have f: "files world_with_file ''out.csv'' = Some ''old''" "files empty_world ''out.csv'' = None"
    "stdout world_with_file = []"
    by (simp_all add: world_with_file_def empty_world_def)
  have t: "to_csv_text sample_ext sample_df = ''namesegment''"
    "df_repr sample_ext sample_df = ''namesegment''"
    by (simp_all add: sample_ext_def sample_df_def)
  have u: "(files world_with_file)(''out.csv'' \<mapsto> x) = [''out.csv'' \<mapsto> x]"
    "(files empty_world)(''out.csv'' \<mapsto> x) = [''out.csv'' \<mapsto> x]" for x
    by (simp_all add: world_with_file_def empty_world_def)
  show ?thesis
    using csv_write_modes [OF c [of None], where ext = sample_ext and df = sample_df and w = world_with_file]
      csv_write_modes [OF c [of None], where ext = sample_ext and df = sample_df and w = empty_world]
      csv_write_modes [OF c [of "Some ''o''"], where ext = sample_ext and df = sample_df and w = world_with_file]
      csv_write_modes [OF c [of "Some ''a''"], where ext = sample_ext and df = sample_df and w = world_with_file]
      csv_write_modes [OF c [of "Some ''x''"], where ext = sample_ext and df = sample_df and w = world_with_file]
      csv_write_modes [OF c0, where ext = sample_ext and df = sample_df and w = world_with_file]
    by (simp add: m f t u)
qed

text \<open>
  C10.  Without a CSV path (absent or empty) the mode is never looked at: whatever it
  is, the output stage raises nothing, prints the table and leaves the files alone.
\<close>

theorem mode_ignored_without_csv:
  assumes "\<not> truthy (csv a)"
  shows "snd (output_stage ext a df w) = None \<and>
         stdout (fst (output_stage ext a df w)) = stdout w @ [df_repr ext df] \<and>
         files (fst (output_stage ext a df w)) = files w"
proof (cases "csv a")
  case None
  then show ?thesis by (simp add: output_stage_def print_table_def)
next
  case (Some path)
  with assms have "path = []" by (simp add: truthy_def)
  with Some show ?thesis by (simp add: output_stage_def print_table_def)
qed

theorem mode_ignored_without_csv_witness:
  "snd (output_stage sample_ext (no_args\<lparr>mode := Some ''x''\<rparr>) sample_df empty_world) = None \<and>
   stdout (fst (output_stage sample_ext (no_args\<lparr>mode := Some ''x''\<rparr>) sample_df empty_world)) =
     [''namesegment'']"
proof -
  have h: "\<not> truthy (csv (no_args\<lparr>mode := Some ''x''\<rparr>))"
    by (simp add: truthy_def no_args_def)
  show ?thesis
    using mode_ignored_without_csv [OF h, of sample_ext sample_df empty_world]
    by (simp add: empty_world_def sample_ext_def sample_df_def)
qed

section \<open>The per-segment rows\<close>

lemma column_append_col:
  "column k (append_col k' v data) = (if k = k' then column k data @ [v] else column k data)"
  by (simp add: column_def append_col_def update_conv')

lemma keys_append_col: "fst ` set (append_col k v data) = insert k (fst ` set data)"
  by (simp add: append_col_def dom_update)

lemma distinct_append_col:
  "distinct (map fst data) \<Longrightarrow> distinct (map fst (append_col k v data))"
  by (simp add: append_col_def distinct_update)

lemma column_append_items:
  "column k (append_items r data) = column k data @ cells_of k r"
  by (induction r data rule: append_items.induct) (simp_all add: column_append_col cells_of_def)

lemma keys_append_items: "fst ` set (append_items r data) = fst ` set r \<union> fst ` set data"
  by (induction r data rule: append_items.induct) (auto simp add: keys_append_col)

lemma distinct_append_items:
  "distinct (map fst data) \<Longrightarrow> distinct (map fst (append_items r data))"
  by (induction r data rule: append_items.induct) (simp_all add: distinct_append_col)

lemma column_fold_append_items:
  "column k (fold append_items rows data) = column k data @ concat (map (cells_of k) rows)"
  by (induction rows arbitrary: data) (simp_all add: column_append_items)

lemma keys_fold_append_items:
  "fst ` set (fold append_items rows data) = (\<Union>r\<in>set rows. fst ` set r) \<union> fst ` set data"
  by (induction rows arbitrary: data) (auto simp add: keys_append_items)

lemma distinct_fold_append_items:
  "distinct (map fst data) \<Longrightarrow> distinct (map fst (fold append_items rows data))"
  by (induction rows arbitrary: data) (simp_all add: distinct_append_items)

lemma segment_row_Inr:
  assumes "segment_row ext c loop d seg data = Inr data'"
  shows "\<exists>v1 v2 v3 v4. data' = append_items (segment_cells loop d seg v1 v2 v3 v4) data"
  using assms
  by (auto simp add: segment_row_def and_then_def split: sum.splits list.splits)

lemma segment_loop_rows:
  assumes "segment_loop ext c loop d segs data = Inr data'"
  shows "\<exists>rows. list_all2 (\<lambda>seg r. \<exists>v1 v2 v3 v4. r = segment_cells loop d seg v1 v2 v3 v4)
                   (filter is_m segs) rows \<and>
                data' = fold append_items rows data"
  using assms
proof (induction segs arbitrary: data)
  case Nil
  then show ?case by simp
next
  case (Cons seg segs)
  show ?case
  proof (cases seg)
    case Nil
    with Cons.prems show ?thesis by simp
  next
    case (Cons k ks)
    show ?thesis
    proof (cases "k = CHR ''m''")
      case False
      with Cons Cons.prems have "segment_loop ext c loop d segs data = Inr data'" by simp
      from Cons.IH [OF this] False Cons show ?thesis by (simp add: is_m_def)
    next
      case True
      with Cons Cons.prems obtain data1 where
        r: "segment_row ext c loop d seg data = Inr data1" and
        l: "segment_loop ext c loop d segs data1 = Inr data'"
        by (auto split: sum.splits)
      from segment_row_Inr [OF r] obtain v1 v2 v3 v4 where
        d1: "data1 = append_items (segment_cells loop d seg v1 v2 v3 v4) data" by blast
      from Cons.IH [OF l] obtain rows where
        rows: "list_all2 (\<lambda>seg r. \<exists>v1 v2 v3 v4. r = segment_cells loop d seg v1 v2 v3 v4)
                 (filter is_m segs) rows" and
        d': "data' = fold append_items rows data1" by blast
      have m: "is_m seg" using True Cons by (simp add: is_m_def)
      let ?rows = "segment_cells loop d seg v1 v2 v3 v4 # rows"
      have "list_all2 (\<lambda>seg r. \<exists>v1 v2 v3 v4. r = segment_cells loop d seg v1 v2 v3 v4)
              (filter is_m (seg # segs)) ?rows"
        using rows m by auto
      moreover have "data' = fold append_items ?rows data" using d' d1 by simp
      ultimately show ?thesis by blast
    qed
  qed
qed

lemma loops_loop_rows:
  assumes "loops_loop ext c loops data = Inr data'"
  shows "\<exists>rows. list_all2 (row_of c) (loop_rows loops) rows \<and> data' = fold append_items rows data"
  using assms
proof (induction loops arbitrary: data)
  case Nil
  then show ?case by (simp add: loop_rows_def)
next
  case (Cons loop loops)
  from Cons.prems obtain d data1 where
    d: "describe_multiloop c loop = Inr d" and
    s: "segment_loop ext c loop d loop data = Inr data1" and
    l: "loops_loop ext c loops data1 = Inr data'"
    by (auto split: sum.splits)
  from segment_loop_rows [OF s] obtain rows1 where
    r1: "list_all2 (\<lambda>seg r. \<exists>v1 v2 v3 v4. r = segment_cells loop d seg v1 v2 v3 v4)
           (filter is_m loop) rows1" and
    d1: "data1 = fold append_items rows1 data" by blast
  from Cons.IH [OF l] obtain rows2 where
    r2: "list_all2 (row_of c) (loop_rows loops) rows2" and
    d2: "data' = fold append_items rows2 data1" by blast
  have "list_all2 (row_of c) (map (\<lambda>segment. (segment, loop)) (filter is_m loop)) rows1"
    using r1 d by (auto simp add: list_all2_map1 row_of_def elim!: list_all2_mono)
  with r2 have "list_all2 (row_of c) (loop_rows (loop # loops)) (rows1 @ rows2)"
    by (simp add: loop_rows_def list_all2_appendI)
  moreover have "data' = fold append_items (rows1 @ rows2) data" using d1 d2 by simp
  ultimately show ?case by blast
qed

lemma segment_cells_keys: "map fst (segment_cells loop d seg v1 v2 v3 v4) = segment_keys"
  by (simp add: segment_cells_def segment_keys_def)

lemma distinct_segment_keys: "distinct segment_keys"
  by (simp add: segment_keys_def)

lemma cells_of_none: "k \<notin> fst ` set r \<Longrightarrow> cells_of k r = []"
  by (induction r) (auto simp add: cells_of_def)

lemma cells_of_distinct:
  "distinct (map fst r) \<Longrightarrow> k \<in> fst ` set r \<Longrightarrow> length (cells_of k r) = 1"
proof (induction r)
  case Nil
  then show ?case by simp
next
  case (Cons kv r)
  show ?case
  proof (cases "fst kv = k")
    case True
    with Cons.prems have "k \<notin> fst ` set r" by auto
    from cells_of_none [OF this] True show ?thesis by (simp add: cells_of_def)
  next
    case False
    with Cons.prems have "distinct (map fst r)" "k \<in> fst ` set r" by auto
    from Cons.IH [OF this] False show ?thesis by (simp add: cells_of_def)
  qed
qed

lemma cells_of_one:
  assumes "k \<in> set segment_keys"
  shows "length (cells_of k (segment_cells loop d seg v1 v2 v3 v4)) = 1"
proof -
  let ?r = "segment_cells loop d seg v1 v2 v3 v4"
  have "distinct (map fst ?r)" by (simp add: segment_cells_keys distinct_segment_keys)
  moreover have "k \<in> fst ` set ?r" using assms segment_cells_keys [of loop d seg v1 v2 v3 v4]
    by (metis set_map)
  ultimately show ?thesis by (rule cells_of_distinct)
qed

lemma cells_of_flags:
  "cells_of ''segment'' (segment_cells loop d seg v1 v2 v3 v4) = [VStr seg]"
  "cells_of ''is_external_multiloop'' (segment_cells loop d seg v1 v2 v3 v4) =
     [VBool (''open'' \<in> set d)]"
  "cells_of ''is_pseudoknotted_multiloop'' (segment_cells loop d seg v1 v2 v3 v4) =
     [VBool (''pseudoknot'' \<in> set d)]"
  "cells_of ''is_regular_multiloop'' (segment_cells loop d seg v1 v2 v3 v4) =
     [VBool (''regular_multiloop'' \<in> set d)]"
  by (simp_all add: segment_cells_def cells_of_def)

lemma row_of_keys: "row_of c sl r \<Longrightarrow> map fst r = segment_keys"
  by (auto simp add: row_of_def segment_cells_keys)

lemma concat_singletons:
  "\<forall>x\<in>set xs. length (f x) = 1 \<Longrightarrow> concat (map f xs) = map (\<lambda>x. hd (f x)) xs"
proof (induction xs)
  case Nil
  then show ?case by simp
next
  case (Cons x xs)
  then have "length (f x) = 1" by simp
  then have "f x = [hd (f x)]" by (cases "f x") simp_all
  with Cons show ?case by simp
qed

lemma rows_column:
  assumes "list_all2 (row_of c) sls rows" and "k \<in> set segment_keys"
  shows "column k (fold append_items rows []) = map (\<lambda>r. hd (cells_of k r)) rows"
proof -
  have "\<forall>r\<in>set rows. length (cells_of k r) = 1"
  proof
    fix r assume "r \<in> set rows"
    with assms(1) obtain sl where "row_of c sl r"
      by (metis in_set_conv_nth list_all2_conv_all_nth)
    with assms(2) show "length (cells_of k r) = 1"
      by (auto simp add: row_of_def cells_of_one)
  qed
  then have "concat (map (cells_of k) rows) = map (\<lambda>r. hd (cells_of k r)) rows"
    by (rule concat_singletons)
  moreover have "column k [] = []" by (simp add: column_def)
  ultimately show ?thesis by (simp add: column_fold_append_items)
qed

lemma rows_keys:
  assumes "list_all2 (row_of c) sls rows"
  shows "fst ` set (fold append_items rows []) \<subseteq> set segment_keys"
proof -
  have "fst ` set r = set segment_keys" if "r \<in> set rows" for r
  proof -
    from that assms obtain sl where "row_of c sl r"
      by (metis in_set_conv_nth list_all2_conv_all_nth)
    from row_of_keys [OF this] show ?thesis by (metis set_map)
  qed
  then show ?thesis by (auto simp add: keys_fold_append_items)
qed

lemma rows_rectangular:
  assumes "list_all2 (row_of c) sls rows" and "kv \<in> set (fold append_items rows [])"
  shows "length (snd kv) = length rows"
proof -
  let ?nd = "fold append_items rows []"
  have dist: "distinct (map fst ?nd)" by (simp add: distinct_fold_append_items)
  from assms(2) have k: "fst kv \<in> set segment_keys" using rows_keys [OF assms(1)] by auto
  from dist assms(2) have "map_of ?nd (fst kv) = Some (snd kv)" by simp
  then have "column (fst kv) ?nd = snd kv" by (simp add: column_def)
  with rows_column [OF assms(1) k] show ?thesis by (metis length_map)
qed

lemma junction_eval: "describe_ml_segments sample_ext junction = Inr junction_segments"
  by code_simp

lemma append_items_at_ok:
  "\<forall>kv\<in>set nd. i < length (snd kv) \<Longrightarrow>
   append_items_at nd i data = Inr (append_items (row_at nd i) data)"
  by (induction nd i data rule: append_items_at.induct) (simp_all add: row_at_def)

lemma append_rows_ok:
  "\<forall>i\<in>set ps. \<forall>kv\<in>set nd. i < length (snd kv) \<Longrightarrow>
   append_rows key nd ps data =
     Inr (fold (\<lambda>i d. append_items (row_at nd i) (append_items key d)) ps data)"
  by (induction ps arbitrary: data) (simp_all add: append_items_at_ok)

lemma column_rows_fold:
  "column k (fold (\<lambda>i d. append_items (row_at nd i) (append_items key d)) ps data) =
     column k data @ concat (map (\<lambda>i. cells_of k key @ cells_of k (row_at nd i)) ps)"
  by (induction ps arbitrary: data) (simp_all add: column_append_items)

lemma keys_row_at: "fst ` set (row_at nd i) = fst ` set nd"
  by (simp add: row_at_def image_image)

lemma cells_of_row_at:
  "distinct (map fst nd) \<Longrightarrow>
   cells_of k (row_at nd i) = (case map_of nd k of None \<Rightarrow> [] | Some v \<Rightarrow> [v ! i])"
proof (induction nd)
  case Nil
  then show ?case by (simp add: cells_of_def row_at_def)
next
  case (Cons kv nd)
  show ?case
  proof (cases "fst kv = k")
    case True
    with Cons.prems have "k \<notin> fst ` set (row_at nd i)" by (simp add: keys_row_at)
    from cells_of_none [OF this] True show ?thesis
      by (cases kv) (simp add: cells_of_def row_at_def)
  next
    case False
    with Cons show ?thesis by (cases kv) (simp add: cells_of_def row_at_def)
  qed
qed

lemma concat_const: "concat (map (\<lambda>i. [x]) ps) = replicate (length ps) x"
  by (induction ps) simp_all

lemma length_loop_rows:
  "length (loop_rows loops) = sum_list (map (\<lambda>loop. length (filter is_m loop)) loops)"
  by (simp add: loop_rows_def length_concat comp_def)

lemma loop_rows_member:
  "sl \<in> set (loop_rows loops) \<Longrightarrow> snd sl \<in> set loops \<and> fst sl \<in> set (snd sl) \<and> is_m (fst sl)"
  by (auto simp add: loop_rows_def)

lemma key_not_segment_key:
  "''name'' \<notin> set segment_keys" "''filename'' \<notin> set segment_keys"
  by (simp_all add: segment_keys_def)

lemma cells_of_key:
  "cells_of k [(''name'', n), (''filename'', f)] =
     (if k = ''name'' then [n] else if k = ''filename'' then [f] else [])"
  by (auto simp add: cells_of_def)

lemma appended_columns:
  assumes rows: "list_all2 (row_of c) sls rows"
    and a: "append_rows [(''name'', n), (''filename'', f)] (fold append_items rows [])
           [0..<length rows] data = Inr data'"
  shows "column k data' = column k data @
           (if k = ''name'' then replicate (length rows) n
            else if k = ''filename'' then replicate (length rows) f
            else column k (fold append_items rows []))"
proof -
  define nd where "nd = fold append_items rows []"
  define key where "key = [(''name'', n), (''filename'', f)]"
  define N where "N = length rows"
  have rect: "length (snd kv) = N" if "kv \<in> set nd" for kv
    using rows_rectangular [OF rows] that unfolding nd_def N_def by blast
  have "\<forall>i\<in>set [0..<N]. \<forall>kv\<in>set nd. i < length (snd kv)"
    using rect by simp
  from append_rows_ok [OF this, of key data] a
  have d': "data' = fold (\<lambda>i d. append_items (row_at nd i) (append_items key d)) [0..<N] data"
    unfolding nd_def key_def N_def by simp
  have dist: "distinct (map fst nd)"
    unfolding nd_def by (simp add: distinct_fold_append_items)
  have keys: "fst ` set nd \<subseteq> set segment_keys"
    unfolding nd_def by (rule rows_keys [OF rows])
  have col: "column k data' =
      column k data @ concat (map (\<lambda>i. cells_of k key @ cells_of k (row_at nd i)) [0..<N])"
    unfolding d' by (rule column_rows_fold)
  have ra: "cells_of k (row_at nd i) = (case map_of nd k of None \<Rightarrow> [] | Some v \<Rightarrow> [v ! i])" for i
    by (rule cells_of_row_at [OF dist])
  have ck: "cells_of k key = (if k = ''name'' then [n] else if k = ''filename'' then [f] else [])"
    unfolding key_def by (rule cells_of_key)
  show ?thesis
  proof (cases "map_of nd k")
    case None
    then have c0: "column k nd = []" by (simp add: column_def)
    have "concat (map (\<lambda>i. cells_of k key @ cells_of k (row_at nd i)) [0..<N]) =
            concat (map (\<lambda>i. cells_of k key) [0..<N])"
      by (simp add: ra None)
    also have "\<dots> = (if k = ''name'' then replicate N n
            else if k = ''filename'' then replicate N f else [])"
      by (simp add: ck map_replicate_const)
    finally show ?thesis using col c0 unfolding nd_def N_def by simp
  next
    case (Some v)
    then have m: "(k, v) \<in> set nd" by (rule map_of_SomeD)
    then have "k \<in> set segment_keys" using keys by force
    with key_not_segment_key have kk: "k \<noteq> ''name''" "k \<noteq> ''filename''" by auto
    from rect [OF m] have lv: "length v = N" by simp
    from Some have c0: "column k nd = v" by (simp add: column_def)
    have "concat (map (\<lambda>i. cells_of k key @ cells_of k (row_at nd i)) [0..<N]) =
            concat (map (\<lambda>i. [v ! i]) [0..<N])"
      by (simp add: ra Some ck kk)
    also have "\<dots> = map ((!) v) [0..<length v]"
      unfolding lv by (induction N) simp_all
    also have "\<dots> = v" by (rule map_nth)
    finally show ?thesis using col c0 kk unfolding nd_def N_def by simp
  qed
qed

text \<open>
  The extractor returns whenever the library calls it makes do: every multiloop is
  described, no segment name is empty, and for every segment of kind \<^verbatim>\<open>m\<close> the length,
  the angle type and its absolute value, the two connected stems, their angle and the
  virtual atom distance are all returned.
\<close>

lemma segment_row_returns:
  assumes "get_length c seg = Inr sl" and "get_angle_type c seg True = Inr atype"
    and "py_abs atype = Inr atabs" and "connections c seg = Inr [s1, s2]"
    and "lookup_angle ext c s1 s2 = Inr ang"
    and "junction_virtual_atom_distance ext c seg = Inr jd"
  shows "segment_row ext c loop d seg data =
           Inr (append_items (segment_cells loop d seg sl atabs ang jd) data)"
  using assms by (simp add: segment_row_def and_then_def)

lemma segment_loop_returns:
  assumes "\<forall>seg\<in>set segs. seg \<noteq> []"
    and "\<forall>seg\<in>set segs. is_m seg \<longrightarrow>
           (\<exists>sl atype atabs s1 s2 ang jd. get_length c seg = Inr sl \<and>
              get_angle_type c seg True = Inr atype \<and> py_abs atype = Inr atabs \<and>
              connections c seg = Inr [s1, s2] \<and> lookup_angle ext c s1 s2 = Inr ang \<and>
              junction_virtual_atom_distance ext c seg = Inr jd)"
  shows "\<exists>data'. segment_loop ext c loop d segs data = Inr data'"
  using assms
proof (induction segs arbitrary: data)
  case Nil
  then show ?case by simp
next
  case (Cons seg segs)
  from Cons.prems obtain k ks where s: "seg = k # ks" by (cases seg) auto
  from Cons.prems have ih: "\<exists>data'. segment_loop ext c loop d segs data = Inr data'" for data
    by (intro Cons.IH) auto
  show ?case
  proof (cases "k = CHR ''m''")
    case False
    with s ih show ?thesis by simp
  next
    case True
    with s have "is_m seg" by (simp add: is_m_def)
    with Cons.prems obtain sl atype atabs s1 s2 ang jd where
      "get_length c seg = Inr sl" "get_angle_type c seg True = Inr atype" "py_abs atype = Inr atabs"
      "connections c seg = Inr [s1, s2]" "lookup_angle ext c s1 s2 = Inr ang"
      "junction_virtual_atom_distance ext c seg = Inr jd"
      by auto
    from segment_row_returns [OF this]
    have "segment_row ext c loop d seg data =
            Inr (append_items (segment_cells loop d seg sl atabs ang jd) data)" .
    with True s ih show ?thesis by simp
  qed
qed

lemma describe_ml_segments_returns:
  assumes "find_mlonly_multiloops c = Inr loops"
    and "\<forall>loop\<in>set loops. \<exists>d. describe_multiloop c loop = Inr d"
    and "\<forall>loop\<in>set loops. \<forall>seg\<in>set loop. seg \<noteq> []"
    and "\<forall>loop\<in>set loops. \<forall>seg\<in>set loop. is_m seg \<longrightarrow>
           (\<exists>sl atype atabs s1 s2 ang jd. get_length c seg = Inr sl \<and>
              get_angle_type c seg True = Inr atype \<and> py_abs atype = Inr atabs \<and>
              connections c seg = Inr [s1, s2] \<and> lookup_angle ext c s1 s2 = Inr ang \<and>
              junction_virtual_atom_distance ext c seg = Inr jd)"
  shows "\<exists>new_data. describe_ml_segments ext c = Inr new_data"
proof -
  have "\<exists>data'. loops_loop ext c loops data = Inr data'" for data
    using assms(2-4)
  proof (induction loops arbitrary: data)
    case Nil
    then show ?case by simp
  next
    case (Cons loop loops)
    from Cons.prems(1) obtain d where d: "describe_multiloop c loop = Inr d" by auto
    from Cons.prems(2,3) have "\<exists>data'. segment_loop ext c loop d loop data = Inr data'"
      by (intro segment_loop_returns) auto
    then obtain data1 where s: "segment_loop ext c loop d loop data = Inr data1" by blast
    from Cons.prems have "\<exists>data'. loops_loop ext c loops data1 = Inr data'"
      by (intro Cons.IH) auto
    with d s show ?case by simp
  qed
  with assms(1) show ?thesis by (simp add: describe_ml_segments_def)
qed

lemma try_body_per_ml:
  assumes "per_ml a" and "i < length filenames"
    and "describe_ml_segments ext c = Inr new_data"
  shows "try_body ext a dist_pairs angle_pairs filenames i c data lg =
           (lg, append_rows [(''name'', VStr (name c)), (''filename'', VStr (filenames ! i))]
                  new_data [0..<length (column ''segment'' new_data)] data)"
  using assms by (simp add: try_body_def)

text \<open>
  C7.  In per-segment mode, when \<^verbatim>\<open>describe_ml_segments\<close> returns for a structure, the
  driver appends without raising exactly as many rows as the multiloops of the
  structure hold segments of kind \<^verbatim>\<open>m\<close>: the \<^verbatim>\<open>name\<close> column grows by that many
  cells and every other column by the column the extractor returned.  Row \<open>j\<close> is the
  row of the \<open>j\<close>-th such segment, and its three flags are membership tests on one and
  the same description, that of the multiloop the segment was found in.
\<close>

theorem per_segment_rows:
  assumes "per_ml a" and "i < length filenames"
    and "find_mlonly_multiloops c = Inr loops"
    and "describe_ml_segments ext c = Inr new_data"
  shows "(\<exists>data'. try_body ext a dist_pairs angle_pairs filenames i c data lg = (lg, Inr data') \<and>
            column ''name'' data' =
              column ''name'' data @
                replicate (sum_list (map (\<lambda>loop. length (filter is_m loop)) loops))
                  (VStr (name c)) \<and>
            (\<forall>k. k \<noteq> ''name'' \<longrightarrow> k \<noteq> ''filename'' \<longrightarrow>
               column k data' = column k data @ column k new_data)) \<and>
         length (column ''segment'' new_data) =
           sum_list (map (\<lambda>loop. length (filter is_m loop)) loops) \<and>
         (\<forall>j<length (loop_rows loops).
            \<exists>d. describe_multiloop c (snd (loop_rows loops ! j)) = Inr d \<and>
              snd (loop_rows loops ! j) \<in> set loops \<and>
              fst (loop_rows loops ! j) \<in> set (snd (loop_rows loops ! j)) \<and>
              column ''segment'' new_data ! j = VStr (fst (loop_rows loops ! j)) \<and>
              column ''is_external_multiloop'' new_data ! j = VBool (''open'' \<in> set d) \<and>
              column ''is_pseudoknotted_multiloop'' new_data ! j =
                VBool (''pseudoknot'' \<in> set d) \<and>
              column ''is_regular_multiloop'' new_data ! j =
                VBool (''regular_multiloop'' \<in> set d))"
proof -
  from assms(3,4) have "loops_loop ext c loops [] = Inr new_data"
    by (simp add: describe_ml_segments_def)
  from loops_loop_rows [OF this] obtain rows where
    rows: "list_all2 (row_of c) (loop_rows loops) rows" and
    nd: "new_data = fold append_items rows []" by blast
  define N where "N = sum_list (map (\<lambda>loop. length (filter is_m loop)) loops)"
  from rows have len: "length rows = N"
    by (simp add: N_def length_loop_rows [symmetric] list_all2_lengthD)
  have sk: "''segment'' \<in> set segment_keys" "''is_external_multiloop'' \<in> set segment_keys"
    "''is_pseudoknotted_multiloop'' \<in> set segment_keys"
    "''is_regular_multiloop'' \<in> set segment_keys"
    by (simp_all add: segment_keys_def)
  have cols: "column k new_data = map (\<lambda>r. hd (cells_of k r)) rows" if "k \<in> set segment_keys" for k
    unfolding nd by (rule rows_column [OF rows that])
  have seglen: "length (column ''segment'' new_data) = N"
    by (simp add: cols [OF sk(1)] len)
  \<comment> \<open>The driver appends the rows.\<close>
  let ?key = "[(''name'', VStr (name c)), (''filename'', VStr (filenames ! i))]"
  have rect: "\<forall>kv\<in>set new_data. length (snd kv) = length rows"
    unfolding nd using rows_rectangular [OF rows] by blast
  then have "\<forall>p\<in>set [0..<length rows]. \<forall>kv\<in>set new_data. p < length (snd kv)" by simp
  from append_rows_ok [OF this, of ?key data] obtain data' where
    ar: "append_rows ?key new_data [0..<length rows] data = Inr data'" by blast
  have tb: "try_body ext a dist_pairs angle_pairs filenames i c data lg = (lg, Inr data')"
    using try_body_per_ml [OF assms(1,2,4), of dist_pairs angle_pairs data lg] ar seglen len
    by simp
  have ac: "column k data' = column k data @
           (if k = ''name'' then replicate (length rows) (VStr (name c))
            else if k = ''filename'' then replicate (length rows) (VStr (filenames ! i))
            else column k new_data)" for k
    using appended_columns [OF rows, of "VStr (name c)" "VStr (filenames ! i)" data data' k] ar
    unfolding nd by simp
  have part1: "\<exists>data'. try_body ext a dist_pairs angle_pairs filenames i c data lg = (lg, Inr data') \<and>
            column ''name'' data' = column ''name'' data @ replicate N (VStr (name c)) \<and>
            (\<forall>k. k \<noteq> ''name'' \<longrightarrow> k \<noteq> ''filename'' \<longrightarrow>
               column k data' = column k data @ column k new_data)"
    using tb ac len by auto
  \<comment> \<open>Each row and the multiloop it comes from.\<close>
  have part3: "\<exists>d. describe_multiloop c (snd (loop_rows loops ! j)) = Inr d \<and>
              snd (loop_rows loops ! j) \<in> set loops \<and>
              fst (loop_rows loops ! j) \<in> set (snd (loop_rows loops ! j)) \<and>
              column ''segment'' new_data ! j = VStr (fst (loop_rows loops ! j)) \<and>
              column ''is_external_multiloop'' new_data ! j = VBool (''open'' \<in> set d) \<and>
              column ''is_pseudoknotted_multiloop'' new_data ! j =
                VBool (''pseudoknot'' \<in> set d) \<and>
              column ''is_regular_multiloop'' new_data ! j =
                VBool (''regular_multiloop'' \<in> set d)"
    if j: "j < length (loop_rows loops)" for j
  proof -
    let ?sl = "loop_rows loops ! j"
    from rows j have "row_of c ?sl (rows ! j)" by (simp add: list_all2_conv_all_nth)
    then obtain d v1 v2 v3 v4 where
      d: "describe_multiloop c (snd ?sl) = Inr d" and
      r: "rows ! j = segment_cells (snd ?sl) d (fst ?sl) v1 v2 v3 v4"
      by (auto simp add: row_of_def)
    from j have "?sl \<in> set (loop_rows loops)" by simp
    from loop_rows_member [OF this] have mem: "snd ?sl \<in> set loops" "fst ?sl \<in> set (snd ?sl)"
      by simp_all
    from rows j have jr: "j < length rows" by (simp add: list_all2_lengthD)
    have nth: "column k new_data ! j = hd (cells_of k (rows ! j))" if "k \<in> set segment_keys" for k
      using cols [OF that] jr by simp
    show ?thesis
      using d mem nth [OF sk(1)] nth [OF sk(2)] nth [OF sk(3)] nth [OF sk(4)]
      by (simp add: r cells_of_flags)
  qed
  from part1 seglen part3 show ?thesis unfolding N_def by blast
qed

theorem per_segment_rows_witness:
  "(\<exists>data'. try_body sample_ext per_ml_args [] [] [''a.cg''] 0 junction [] [] = ([], Inr data') \<and>
      column ''name'' data' = replicate 3 (VStr ''junction'')) \<and>
   describe_ml_segments sample_ext junction = Inr junction_segments \<and>
   length (column ''segment'' junction_segments) = 3"
proof -
  have h1: "per_ml per_ml_args" by (simp add: per_ml_args_def no_args_def)
  have h2: "0 < length [''a.cg'']" by simp
  have h3: "find_mlonly_multiloops junction = Inr [[''f0'', ''t0''], [''m0'', ''m1'', ''m2'']]"
    by (simp add: junction_def)
  have h4: "describe_ml_segments sample_ext junction = Inr junction_segments" by code_simp
  have n: "sum_list (map (\<lambda>loop. length (filter is_m loop))
             [[''f0'', ''t0''], [''m0'', ''m1'', ''m2'']]) = 3"
    by (simp add: is_m_def)
  have c0: "column ''name'' [] = []" by (simp add: column_def)
  have nm: "name junction = ''junction''" by (simp add: junction_def)
  from per_segment_rows [OF h1 h2 h3 h4, of "[]" "[]" "[]" "[]"]
  have "(\<exists>data'. try_body sample_ext per_ml_args [] [] [''a.cg''] 0 junction [] [] = ([], Inr data') \<and>
            column ''name'' data' = replicate 3 (VStr ''junction''))"
    and "length (column ''segment'' junction_segments) = 3"
    unfolding n c0 nm by auto
  with h4 show ?thesis by simp
qed

section \<open>The whole-structure extractor, block by block\<close>

text \<open>
  What each block of \<^verbatim>\<open>describe_rna\<close> does on its own.  The blocks before line 67 run
  for every structure; those after it never do.
\<close>

lemmas rna_defs = describe_rna_def element_counts_def multiloop_stats_def longest_ml_def mmax_def
  getitem_last_def

subsection \<open>Element counts\<close>

lemma count_kind_filter:
  "[] \<notin> set ds \<Longrightarrow> count_kind l ds = Inr (length (filter (\<lambda>x. hd x = l) ds))"
proof (induction ds)
  case Nil
  then show ?case by simp
next
  case (Cons x ds)
  then show ?case by (cases x) auto
qed

lemma kinds_partition:
  assumes "\<forall>x\<in>set ds. hd x \<in> set ''smifth''"
  shows "length (filter (\<lambda>x. hd x = CHR ''s'') ds) + length (filter (\<lambda>x. hd x = CHR ''m'') ds) +
         length (filter (\<lambda>x. hd x = CHR ''i'') ds) + length (filter (\<lambda>x. hd x = CHR ''f'') ds) +
         length (filter (\<lambda>x. hd x = CHR ''t'') ds) + length (filter (\<lambda>x. hd x = CHR ''h'') ds) =
         length ds"
  using assms by (induction ds) auto

text \<open>
  C9.  Lines 42 to 45 on a structure whose element names are not empty and start with
  one of the six kind letters, as the names of the library do: the block returns,
  \<^verbatim>\<open>num_cg_elems\<close> is the number of elements, each of the six counts is the number of
  names starting with its letter, and the six counts add up to \<^verbatim>\<open>num_cg_elems\<close>.
  (These are the entries of the row under construction; the call of
  \<^verbatim>\<open>describe_rna\<close> ends at line 67, see C1.)
\<close>

theorem per_kind_counts_sum:
  assumes "[] \<notin> set (defines_dict c)"
    and "\<forall>x\<in>set (defines_dict c). hd x \<in> set ''smifth''"
  shows "\<exists>s m i f t h data. element_counts c = Inr data \<and>
           s = int (length (filter (\<lambda>x. hd x = CHR ''s'') (defines_dict c))) \<and>
           m = int (length (filter (\<lambda>x. hd x = CHR ''m'') (defines_dict c))) \<and>
           i = int (length (filter (\<lambda>x. hd x = CHR ''i'') (defines_dict c))) \<and>
           f = int (length (filter (\<lambda>x. hd x = CHR ''f'') (defines_dict c))) \<and>
           t = int (length (filter (\<lambda>x. hd x = CHR ''t'') (defines_dict c))) \<and>
           h = int (length (filter (\<lambda>x. hd x = CHR ''h'') (defines_dict c))) \<and>
           map_of data ''num_s'' = Some (VInt s) \<and> map_of data ''num_m'' = Some (VInt m) \<and>
           map_of data ''num_i'' = Some (VInt i) \<and> map_of data ''num_f'' = Some (VInt f) \<and>
           map_of data ''num_t'' = Some (VInt t) \<and> map_of data ''num_h'' = Some (VInt h) \<and>
           map_of data ''num_cg_elems'' = Some (VInt (int (length (defines_dict c)))) \<and>
           s + m + i + f + t + h = int (length (defines_dict c))"
proof -
  let ?ds = "defines_dict c"
  let ?n = "\<lambda>l. int (length (filter (\<lambda>x. hd x = l) ?ds))"
  have ck: "count_kind l ?ds = Inr (length (filter (\<lambda>x. hd x = l) ?ds))" for l
    by (rule count_kind_filter [OF assms(1)])
  obtain data where d: "element_counts c = Inr data"
    by (simp add: element_counts_def ck)
  then have m: "map_of data ''num_s'' = Some (VInt (?n CHR ''s''))"
    "map_of data ''num_m'' = Some (VInt (?n CHR ''m''))"
    "map_of data ''num_i'' = Some (VInt (?n CHR ''i''))"
    "map_of data ''num_f'' = Some (VInt (?n CHR ''f''))"
    "map_of data ''num_t'' = Some (VInt (?n CHR ''t''))"
    "map_of data ''num_h'' = Some (VInt (?n CHR ''h''))"
    "map_of data ''num_cg_elems'' = Some (VInt (int (length ?ds)))"
    by (auto simp add: element_counts_def ck update_conv')
  have "?n CHR ''s'' + ?n CHR ''m'' + ?n CHR ''i'' + ?n CHR ''f'' + ?n CHR ''t'' + ?n CHR ''h'' =
          int (length ?ds)"
    using kinds_partition [OF assms(2)] by linarith
  with d m show ?thesis by blast
qed

theorem per_kind_counts_sum_witness:
  "element_counts junction = Inr junction_counts \<and>
   map_of junction_counts ''num_cg_elems'' = Some (VInt 10) \<and>
   (\<exists>s m i f t h. map_of junction_counts ''num_s'' = Some (VInt s) \<and>
      map_of junction_counts ''num_m'' = Some (VInt m) \<and>
      map_of junction_counts ''num_i'' = Some (VInt i) \<and>
      map_of junction_counts ''num_f'' = Some (VInt f) \<and>
      map_of junction_counts ''num_t'' = Some (VInt t) \<and>
      map_of junction_counts ''num_h'' = Some (VInt h) \<and>
      s + m + i + f + t + h = 10)"
proof -
  have ds: "defines_dict junction =
      [''s0'', ''s1'', ''s2'', ''m0'', ''m1'', ''m2'', ''f0'', ''t0'', ''h0'', ''h1'']"
    by (simp add: junction_def)
  have h1: "[] \<notin> set (defines_dict junction)" by (simp add: ds)
  have h2: "\<forall>x\<in>set (defines_dict junction). hd x \<in> set ''smifth''" by (simp add: ds)
  have e: "element_counts junction = Inr junction_counts"
    by (simp add: element_counts_def junction_def junction_counts_def)
  from per_kind_counts_sum [OF h1 h2] obtain s m i f t h data where
    "element_counts junction = Inr data"
    "map_of data ''num_s'' = Some (VInt s)" "map_of data ''num_m'' = Some (VInt m)"
    "map_of data ''num_i'' = Some (VInt i)" "map_of data ''num_f'' = Some (VInt f)"
    "map_of data ''num_t'' = Some (VInt t)" "map_of data ''num_h'' = Some (VInt h)"
    "s + m + i + f + t + h = int (length (defines_dict junction))"
    by blast
  with e have "\<exists>s m i f t h. map_of junction_counts ''num_s'' = Some (VInt s) \<and>
      map_of junction_counts ''num_m'' = Some (VInt m) \<and>
      map_of junction_counts ''num_i'' = Some (VInt i) \<and>
      map_of junction_counts ''num_f'' = Some (VInt f) \<and>
      map_of junction_counts ''num_t'' = Some (VInt t) \<and>
      map_of junction_counts ''num_h'' = Some (VInt h) \<and>
      s + m + i + f + t + h = 10"
    by (auto simp add: ds)
  moreover have "map_of junction_counts ''num_cg_elems'' = Some (VInt 10)"
    by (simp add: junction_counts_def)
  ultimately show ?thesis using e by blast
qed

subsection \<open>Multiloop statistics\<close>

lemma multiloop_loop_last:
  "multiloop_loop c mls st = Inr (ds, j3, j4) \<Longrightarrow>
   (if mls = [] then ds = fst st else describe_multiloop c (last mls) = Inr ds)"
proof (induction c mls st rule: multiloop_loop.induct)
  case (1 c st)
  then show ?case by simp
next
  case (2 c ml mls descriptors junct3 junct4)
  from "2.prems" obtain d0 l where d0: "describe_multiloop c ml = Inr d0"
    and l: "getitem_last d0 = Inr l"
    by (auto split: sum.splits)
  show ?case
  proof (cases "mls = []")
    case True
    with "2.prems" d0 l show ?thesis by (auto split: if_splits)
  next
    case False
    with "2.prems" "2.IH" d0 l show ?thesis by (auto split: if_splits)
  qed
qed

text \<open>
  Lines 46 to 65: the three counts are taken from the description of the last
  multiloop alone, and from the empty list when there is none.
\<close>

lemma multiloop_stats_last_only:
  assumes "multiloop_stats c mls data = Inr data'"
  shows "\<exists>ds. (if mls = [] then ds = [] else describe_multiloop c (last mls) = Inr ds) \<and>
           map_of data' ''open_mls'' = Some (count_in ''open'' ds) \<and>
           map_of data' ''pseudoknots'' = Some (count_in ''pseudoknot'' ds) \<and>
           map_of data' ''regular_mls'' = Some (count_in ''regular_multiloop'' ds)"
proof -
  from assms obtain ds j3 j4 where l: "multiloop_loop c mls ([], 0, 0) = Inr (ds, j3, j4)"
    by (auto simp add: multiloop_stats_def split: sum.splits)
  with assms have "map_of data' ''open_mls'' = Some (count_in ''open'' ds) \<and>
           map_of data' ''pseudoknots'' = Some (count_in ''pseudoknot'' ds) \<and>
           map_of data' ''regular_mls'' = Some (count_in ''regular_multiloop'' ds)"
    by (auto simp add: multiloop_stats_def update_conv')
  with multiloop_loop_last [OF l] show ?thesis by auto
qed

text \<open>The block returns when every multiloop has a description that is not empty.\<close>

lemma multiloop_loop_returns:
  assumes "\<forall>ml\<in>set mls. \<exists>ds. describe_multiloop c ml = Inr ds \<and> ds \<noteq> []"
  shows "\<exists>r. multiloop_loop c mls st = Inr r"
  using assms
proof (induction mls arbitrary: st)
  case Nil
  show ?case by (rule exI [of _ st]) simp
next
  case (Cons ml mls)
  from Cons.prems obtain ds where d: "describe_multiloop c ml = Inr ds" "ds \<noteq> []" by auto
  from Cons.prems have ih: "\<exists>r. multiloop_loop c mls st' = Inr r" for st'
    by (intro Cons.IH) auto
  obtain descriptors junct3 junct4 where st: "st = (descriptors, junct3, junct4)"
    by (cases st)
  show ?case using d ih by (simp add: st getitem_last_def)
qed

lemma multiloop_stats_returns:
  assumes "\<forall>ml\<in>set mls. \<exists>ds. describe_multiloop c ml = Inr ds \<and> ds \<noteq> []"
  shows "\<exists>data'. multiloop_stats c mls data = Inr data'"
proof -
  from multiloop_loop_returns [OF assms] obtain r where
    "multiloop_loop c mls ([], 0, 0) = Inr r" by blast
  then show ?thesis by (cases r) (simp add: multiloop_stats_def)
qed

text \<open>
  C2.  When lines 46 to 65 return, \<^verbatim>\<open>open_mls\<close>, \<^verbatim>\<open>pseudoknots\<close> and
  \<^verbatim>\<open>regular_mls\<close> count the strings holding the keyword in the description of the
  last multiloop in iteration order alone, and all three are 0 when the structure has
  no multiloop.  For the junction the first multiloop is open and the last is regular:
  \<^verbatim>\<open>open_mls\<close> is 0, not 1.  (These are the entries of the row under construction; the
  call of \<^verbatim>\<open>describe_rna\<close> ends at line 67, see C1.)
\<close>

theorem multiloop_counts_from_last:
  assumes "multiloop_stats c multiloops data = Inr data'"
  shows "(\<exists>descriptors.
            (if multiloops = [] then descriptors = []
             else describe_multiloop c (last multiloops) = Inr descriptors) \<and>
            map_of data' ''open_mls'' =
              Some (VInt (int (length (filter (str_in ''open'') descriptors)))) \<and>
            map_of data' ''pseudoknots'' =
              Some (VInt (int (length (filter (str_in ''pseudoknot'') descriptors)))) \<and>
            map_of data' ''regular_mls'' =
              Some (VInt (int (length (filter (str_in ''regular_multiloop'') descriptors))))) \<and>
         (multiloops = [] \<longrightarrow>
            map_of data' ''open_mls'' = Some (VInt 0) \<and>
            map_of data' ''pseudoknots'' = Some (VInt 0) \<and>
            map_of data' ''regular_mls'' = Some (VInt 0))"
proof -
  from multiloop_stats_last_only [OF assms] obtain ds where
    ds: "if multiloops = [] then ds = [] else describe_multiloop c (last multiloops) = Inr ds"
    and m: "map_of data' ''open_mls'' = Some (count_in ''open'' ds)"
      "map_of data' ''pseudoknots'' = Some (count_in ''pseudoknot'' ds)"
      "map_of data' ''regular_mls'' = Some (count_in ''regular_multiloop'' ds)"
    by blast
  from ds m have "multiloops = [] \<longrightarrow>
            map_of data' ''open_mls'' = Some (VInt 0) \<and>
            map_of data' ''pseudoknots'' = Some (VInt 0) \<and>
            map_of data' ''regular_mls'' = Some (VInt 0)"
    by (simp add: count_in_def)
  moreover from ds m have "\<exists>descriptors.
            (if multiloops = [] then descriptors = []
             else describe_multiloop c (last multiloops) = Inr descriptors) \<and>
            map_of data' ''open_mls'' =
              Some (VInt (int (length (filter (str_in ''open'') descriptors)))) \<and>
            map_of data' ''pseudoknots'' =
              Some (VInt (int (length (filter (str_in ''pseudoknot'') descriptors)))) \<and>
            map_of data' ''regular_mls'' =
              Some (VInt (int (length (filter (str_in ''regular_multiloop'') descriptors))))"
    unfolding count_in_def by blast
  ultimately show ?thesis by blast
qed

theorem multiloop_counts_from_last_witness:
  "multiloop_stats junction [[''f0'', ''t0''], [''m0'', ''m1'', ''m2'']] [] =
     Inr junction_multiloop_stats \<and>
   describe_multiloop junction [''f0'', ''t0''] = Inr [''open''] \<and>
   describe_multiloop junction [''m0'', ''m1'', ''m2''] = Inr [''regular_multiloop''] \<and>
   map_of junction_multiloop_stats ''open_mls'' = Some (VInt 0) \<and>
   map_of junction_multiloop_stats ''pseudoknots'' = Some (VInt 0) \<and>
   map_of junction_multiloop_stats ''regular_mls'' = Some (VInt 1)"
proof -
  have h: "multiloop_stats junction [[''f0'', ''t0''], [''m0'', ''m1'', ''m2'']] [] =
             Inr junction_multiloop_stats"
    by (simp add: multiloop_stats_def junction_def getitem_last_def count_in_def
        junction_multiloop_stats_def)
  have d: "describe_multiloop junction [''f0'', ''t0''] = Inr [''open'']"
    "describe_multiloop junction [''m0'', ''m1'', ''m2''] = Inr [''regular_multiloop'']"
    by (simp_all add: junction_def)
  from multiloop_counts_from_last [OF h] obtain descriptors where
    l: "describe_multiloop junction (last [[''f0'', ''t0''], [''m0'', ''m1'', ''m2'']]) =
          Inr descriptors"
    and m: "map_of junction_multiloop_stats ''open_mls'' =
              Some (VInt (int (length (filter (str_in ''open'') descriptors))))"
      "map_of junction_multiloop_stats ''pseudoknots'' =
              Some (VInt (int (length (filter (str_in ''pseudoknot'') descriptors))))"
      "map_of junction_multiloop_stats ''regular_mls'' =
              Some (VInt (int (length (filter (str_in ''regular_multiloop'') descriptors))))"
    by auto
  from l d have "descriptors = [''regular_multiloop'']" by simp
  with m have "map_of junction_multiloop_stats ''open_mls'' = Some (VInt 0)"
    "map_of junction_multiloop_stats ''pseudoknots'' = Some (VInt 0)"
    "map_of junction_multiloop_stats ''regular_mls'' = Some (VInt 1)"
    by simp_all
  with h d show ?thesis by simp
qed

subsection \<open>Shape metrics\<close>

text \<open>
  Lines 70 to 84: when the fast radius of gyration raises \<^verbatim>\<open>RnaMissing3dError\<close> or
  \<^verbatim>\<open>AttributeError\<close>, the block sets all six metrics to NaN and raises nothing.
\<close>

lemma shape_metrics_nan:
  assumes "radius_of_gyration c ''fast'' = Inl (Exc t msg)"
    and "t = RnaMissing3dError \<or> t = AttributeError"
  shows "\<exists>data'. shape_metrics ext c data = Inr data' \<and>
           map_of data' ''rog_fast'' = Some VNaN \<and> map_of data' ''rog_vres'' = Some VNaN \<and>
           map_of data' ''anisotropy_fast'' = Some VNaN \<and>
           map_of data' ''anisotropy_vres'' = Some VNaN \<and>
           map_of data' ''asphericity_fast'' = Some VNaN \<and>
           map_of data' ''asphericity_vres'' = Some VNaN"
  using assms by (auto simp add: shape_metrics_def update_conv')

text \<open>
  C3.  A structure without 3D coordinates should get a feature row with six NaN shape
  metrics.  The hairpin is such a structure; the call raises at line 67, before the
  shape metrics are looked at, and there is no row.
\<close>

theorem shape_metrics_never_reported:
  "radius_of_gyration hairpin ''fast'' = Inl (Exc RnaMissing3dError ''No 3D information'') \<and>
   describe_rna sample_ext (Some []) hairpin 2 [] [] [] =
     ([], Inl (Exc NameError ''name mmax is not defined''))"
  by (simp add: rna_defs hairpin_def)

subsection \<open>Distances and angles\<close>

text \<open>
  Lines 85 to 106, for requested pairs that unpack: neither loop raises; every pair
  writes its entry, NaN when the lookup raised, and every failed pair logs one warning.
\<close>

lemma distance_loop_pairs:
  assumes "\<forall>p\<in>set pairs. length p = 2"
  shows "distance_loop ext c n pairs data lg =
     (lg @ concat (map (\<lambda>p. case lookup_distance ext c (p ! 0) (p ! 1) of
                              Inl e \<Rightarrow> [distance_warning c n (p ! 0) (p ! 1) e]
                            | Inr v \<Rightarrow> []) pairs),
      Inr (fold (\<lambda>p. AList.update (''distance_'' @ p ! 0 @ ''_'' @ p ! 1)
                   (case lookup_distance ext c (p ! 0) (p ! 1) of
                      Inl e \<Rightarrow> VNaN | Inr v \<Rightarrow> v)) pairs data))"
  using assms
proof (induction pairs arbitrary: data lg)
  case Nil
  then show ?case by simp
next
  case (Cons p pairs)
  then have "length p = 2" by simp
  then obtain a b where p: "p = [a, b]"
    by (cases p; cases "tl p"; cases "tl (tl p)") auto
  from Cons have ih: "\<forall>p\<in>set pairs. length p = 2" by simp
  show ?case
    by (cases "lookup_distance ext c a b") (simp_all add: p Cons.IH [OF ih])
qed

lemma angle_loop_pairs:
  assumes "\<forall>p\<in>set pairs. length p = 2"
  shows "angle_loop ext c n pairs data lg =
     (lg @ concat (map (\<lambda>p. case lookup_angle ext c (p ! 0) (p ! 1) of
                              Inl e \<Rightarrow> [angle_warning c n (p ! 0) (p ! 1) e]
                            | Inr v \<Rightarrow> []) pairs),
      Inr (fold (\<lambda>p. AList.update (''angle_'' @ p ! 0 @ ''_'' @ p ! 1)
                   (case lookup_angle ext c (p ! 0) (p ! 1) of
                      Inl e \<Rightarrow> VNaN | Inr v \<Rightarrow> v)) pairs data))"
  using assms
proof (induction pairs arbitrary: data lg)
  case Nil
  then show ?case by simp
next
  case (Cons p pairs)
  then have "length p = 2" by simp
  then obtain a b where p: "p = [a, b]"
    by (cases p; cases "tl p"; cases "tl (tl p)") auto
  from Cons have ih: "\<forall>p\<in>set pairs. length p = 2" by simp
  show ?case
    by (cases "lookup_angle ext c a b") (simp_all add: p Cons.IH [OF ih])
qed

text \<open>
  C4.  A pair whose lookup raises should give a NaN entry and one warning, and the run
  should go on.  For the hairpin both lookups raise, but the call raises at line 67
  before either loop: no entry, no warning, and the run ends at the first structure.
\<close>

theorem failed_pairs_never_reported:
  "lookup_distance sample_ext hairpin ''1'' ''2'' =
     Inl (Exc RnaMissing3dError ''No 3D information'') \<and>
   lookup_angle sample_ext hairpin ''s0'' ''h0'' = Inl (Exc KeyError ''s0'') \<and>
   describe_rna sample_ext (Some [[''1'', ''2'']]) hairpin 1 [[''1'', ''2'']] [[''s0'', ''h0'']] [] =
     ([], Inl (Exc NameError ''name mmax is not defined'')) \<and>
   main sample_ext (no_args\<lparr>distances := Some ''1,2'', angles := Some ''s0,h0''\<rparr>)
       [hairpin, junction] [''a.cg'', ''b.cg''] empty_world =
     (empty_world\<lparr>logged := [info_record 1 hairpin, error_record 1 hairpin]\<rparr>,
      Some (Exc NameError ''name mmax is not defined''))"
  by (simp add: rna_defs hairpin_def lookup_distance_def lookup_angle_def and_then_def
      sample_ext_def main_def try_body_def no_args_def parse_pairs_def empty_world_def)

end
